theory Spec2Isabelle
  imports Complex_Main "HOL-Library.Word"
begin

section \<open>Double-precision values\<close>

text \<open>
  The engines of \<^verbatim>\<open>rbpf.h\<close> compute on C++ \<^verbatim>\<open>double\<close>s and use the
  special values on purpose: the running maxima start at \<^verbatim>\<open>-1.0/0.0\<close>, and the
  logarithm of a non-positive number is taken in the expectation loop.  A double is
  modelled as one of the four IEEE-754 classes.  Finite values are ideal reals: rounding,
  overflow, underflow and the sign of zero are left out, so every statement below is about
  exact arithmetic on the values the code combines.
\<close>

datatype double = NaN | NegInf | Finite real | PosInf

fun dneg :: "double \<Rightarrow> double" where
  "dneg NaN = NaN"
| "dneg NegInf = PosInf"
| "dneg PosInf = NegInf"
| "dneg (Finite a) = Finite (- a)"

fun dadd :: "double \<Rightarrow> double \<Rightarrow> double" where
  "dadd NaN b = NaN"
| "dadd NegInf NaN = NaN"
| "dadd NegInf NegInf = NegInf"
| "dadd NegInf (Finite b) = NegInf"
| "dadd NegInf PosInf = NaN"
| "dadd (Finite a) NaN = NaN"
| "dadd (Finite a) NegInf = NegInf"
| "dadd (Finite a) (Finite b) = Finite (a + b)"
| "dadd (Finite a) PosInf = PosInf"
| "dadd PosInf NaN = NaN"
| "dadd PosInf NegInf = NaN"
| "dadd PosInf (Finite b) = PosInf"
| "dadd PosInf PosInf = PosInf"

definition dsub :: "double \<Rightarrow> double \<Rightarrow> double" where
  "dsub a b = dadd a (dneg b)"

fun dmul :: "double \<Rightarrow> double \<Rightarrow> double" where
  "dmul NaN b = NaN"
| "dmul NegInf NaN = NaN"
| "dmul NegInf NegInf = PosInf"
| "dmul NegInf (Finite b) = (if b = 0 then NaN else if 0 < b then NegInf else PosInf)"
| "dmul NegInf PosInf = NegInf"
| "dmul (Finite a) NaN = NaN"
| "dmul (Finite a) NegInf = (if a = 0 then NaN else if 0 < a then NegInf else PosInf)"
| "dmul (Finite a) (Finite b) = Finite (a * b)"
| "dmul (Finite a) PosInf = (if a = 0 then NaN else if 0 < a then PosInf else NegInf)"
| "dmul PosInf NaN = NaN"
| "dmul PosInf NegInf = NegInf"
| "dmul PosInf (Finite b) = (if b = 0 then NaN else if 0 < b then PosInf else NegInf)"
| "dmul PosInf PosInf = PosInf"

fun ddiv :: "double \<Rightarrow> double \<Rightarrow> double" where
  "ddiv NaN b = NaN"
| "ddiv NegInf NaN = NaN"
| "ddiv NegInf NegInf = NaN"
| "ddiv NegInf (Finite b) = (if b < 0 then PosInf else NegInf)"
| "ddiv NegInf PosInf = NaN"
| "ddiv (Finite a) NaN = NaN"
| "ddiv (Finite a) NegInf = Finite 0"
| "ddiv (Finite a) (Finite b) =
     (if b = 0 then (if a = 0 then NaN else if 0 < a then PosInf else NegInf)
      else Finite (a / b))"
| "ddiv (Finite a) PosInf = Finite 0"
| "ddiv PosInf NaN = NaN"
| "ddiv PosInf NegInf = NaN"
| "ddiv PosInf (Finite b) = (if b < 0 then NegInf else PosInf)"
| "ddiv PosInf PosInf = NaN"

text \<open>\<^verbatim>\<open>std::exp\<close> and \<^verbatim>\<open>std::log\<close>: the logarithm of a negative number is NaN,
  the logarithm of zero is minus infinity.\<close>

fun dexp :: "double \<Rightarrow> double" where
  "dexp NaN = NaN"
| "dexp NegInf = Finite 0"
| "dexp (Finite a) = Finite (exp a)"
| "dexp PosInf = PosInf"

fun dlog :: "double \<Rightarrow> double" where
  "dlog NaN = NaN"
| "dlog NegInf = NaN"
| "dlog (Finite a) = (if a < 0 then NaN else if a = 0 then NegInf else Finite (ln a))"
| "dlog PosInf = PosInf"

text \<open>The comparison \<^verbatim>\<open><\<close>; it is false as soon as one side is NaN.\<close>

fun dlt :: "double \<Rightarrow> double \<Rightarrow> bool" where
  "dlt NaN b = False"
| "dlt NegInf NaN = False"
| "dlt NegInf NegInf = False"
| "dlt NegInf (Finite b) = True"
| "dlt NegInf PosInf = True"
| "dlt (Finite a) NaN = False"
| "dlt (Finite a) NegInf = False"
| "dlt (Finite a) (Finite b) = (a < b)"
| "dlt (Finite a) PosInf = True"
| "dlt PosInf b = False"

definition dgt :: "double \<Rightarrow> double \<Rightarrow> bool" where
  "dgt a b = dlt b a"

text \<open>The literal \<^verbatim>\<open>-1.0/0.0\<close> that initialises the running maxima.\<close>

definition neg_infinity :: double where
  "neg_infinity = ddiv (Finite (- 1)) (Finite 0)"


section \<open>Faults\<close>

text \<open>
  The source has no \<^verbatim>\<open>throw\<close> and no check of its own.  What it can do is run into
  undefined behaviour; each such place is a branch of the model that stops the call:
  the remainder by a zero resampling period, the dereference of
  \<^verbatim>\<open>std::max_element\<close> on an empty range, a write through
  \<^verbatim>\<open>m_expectations[fId]\<close> past the end of the vector, and a functional whose
  output does not fit the \<^verbatim>\<open>dimOut\<close> by \<^verbatim>\<open>dimOut\<close> temporaries.
\<close>

datatype fault = ModuloByZero | EmptyRangeDeref | VectorIndexOutOfRange | ShapeMismatch


section \<open>Vectors, matrices and the algorithms of the standard library\<close>

type_synonym vec = "double list"
type_synonym Mat = "double list list"

text \<open>The aliases of the two classes: sampled state, not sampled state, observation.\<close>

type_synonym sssv = vec
type_synonym nsssv = vec
type_synonym osv = vec
type_synonym nsssMat = Mat

text \<open>\<^verbatim>\<open>std::max_element\<close> keeps the first largest element, comparing with \<^verbatim>\<open><\<close>;
  on an empty range it returns the end iterator, which the callers dereference.\<close>

fun max_element_from :: "double \<Rightarrow> double list \<Rightarrow> double" where
  "max_element_from largest [] = largest"
| "max_element_from largest (x # xs) =
     max_element_from (if dlt largest x then x else largest) xs"

definition max_element :: "double list \<Rightarrow> fault + double" where
  "max_element xs =
     (case xs of [] \<Rightarrow> Inl EmptyRangeDeref | x # xs' \<Rightarrow> Inr (max_element_from x xs'))"

text \<open>\<^verbatim>\<open>std::vector::resize\<close>: the kept prefix, then empty matrices.\<close>

definition resize_vec :: "nat \<Rightarrow> Mat list \<Rightarrow> Mat list" where
  "resize_vec n xs = take n xs @ replicate (n - length xs) []"

text \<open>Eigen's coefficient-wise operations.\<close>

definition mat_Zero :: "nat \<Rightarrow> nat \<Rightarrow> Mat" where
  "mat_Zero r c = replicate r (replicate c (Finite 0))"

definition mat_Ones :: "nat \<Rightarrow> nat \<Rightarrow> Mat" where
  "mat_Ones r c = replicate r (replicate c (Finite 1))"

definition mat_log :: "Mat \<Rightarrow> Mat" where
  "mat_log A = map (map dlog) A"

definition mat_exp :: "Mat \<Rightarrow> Mat" where
  "mat_exp A = map (map dexp) A"

definition mat_add :: "Mat \<Rightarrow> Mat \<Rightarrow> Mat" where
  "mat_add A B = map2 (map2 dadd) A B"

definition mat_scale :: "double \<Rightarrow> Mat \<Rightarrow> Mat" where
  "mat_scale c A = map (map (dmul c)) A"

definition mat_div :: "Mat \<Rightarrow> double \<Rightarrow> Mat" where
  "mat_div A c = map (map (\<lambda>a. ddiv a c)) A"

definition has_shape :: "nat \<Rightarrow> nat \<Rightarrow> Mat \<Rightarrow> bool" where
  "has_shape r c A = (length A = r \<and> list_all (\<lambda>row. length row = c) A)"


section \<open>The state of an engine and the user's model\<close>

text \<open>
  The private members of \<^verbatim>\<open>rbpf_hmm\<close> and \<^verbatim>\<open>rbpf_kalman\<close> are the same eight
  fields.  \<^verbatim>\<open>unsigned int\<close> is a 32-bit word.  The three \<^verbatim>\<open>std::array\<close>s of
  \<^verbatim>\<open>nparts\<close> elements are lists; the template parameter \<^verbatim>\<open>nparts\<close> is an
  argument of every operation.  The samplers \<^verbatim>\<open>q1Samp\<close> and \<^verbatim>\<open>qSamp\<close> are
  virtual member functions that draw random numbers: \<open>m_user\<close> is the state of the
  derived object they read and advance.  The other virtual functions are functions of
  their arguments.
\<close>

record ('i, 'u, 'r) rbpf =
  m_now :: "32 word"
  m_lastLogCondLike :: double
  m_rs :: "32 word"
  m_p_innerMods :: "'i list"
  m_p_samps :: "sssv list"
  m_logUnNormWeights :: "double list"
  m_resampler :: 'r
  m_expectations :: "Mat list"
  m_user :: 'u

text \<open>
  What both classes take from outside: the pure virtual functions they share, the two
  accessors of the closed-form filter objects of \<^verbatim>\<open>cf_filters.h\<close> (a header that is
  not part of the sources, so the filter object is a type parameter \<open>'i\<close>), and the
  resampler of the template parameter \<^verbatim>\<open>resampT\<close>, which receives the three arrays by
  reference.
\<close>

record ('i, 'u, 'r) model =
  logMuEv :: "sssv \<Rightarrow> double"
  q1Samp :: "osv \<Rightarrow> 'u \<Rightarrow> sssv \<times> 'u"
  qSamp :: "sssv \<Rightarrow> osv \<Rightarrow> 'u \<Rightarrow> sssv \<times> 'u"
  logQ1Ev :: "sssv \<Rightarrow> osv \<Rightarrow> double"
  logFEv :: "sssv \<Rightarrow> sssv \<Rightarrow> double"
  logQEv :: "sssv \<Rightarrow> sssv \<Rightarrow> osv \<Rightarrow> double"
  inner_getLogCondLike :: "'i \<Rightarrow> double"
  getFilterVec :: "'i \<Rightarrow> nsssv"
  resampLogWts :: "'r \<Rightarrow> 'i list \<Rightarrow> sssv list \<Rightarrow> double list
                    \<Rightarrow> 'r \<times> 'i list \<times> sssv list \<times> double list"

text \<open>
  The hooks of \<^verbatim>\<open>rbpf_hmm\<close>.  Its later steps call \<^verbatim>\<open>updateFSHMM\<close>, a name the
  class does not declare; it is a hook of its own here, next to \<^verbatim>\<open>updateHMM\<close>.
\<close>

record ('i, 'u, 'r) hmm_model = "('i, 'u, 'r) model" +
  initHMMProbVec :: "sssv \<Rightarrow> nsssv"
  initHMMTransMat :: "sssv \<Rightarrow> nsssMat"
  hmm_ctor :: "nsssv \<Rightarrow> nsssMat \<Rightarrow> 'i"
  updateHMM :: "'i \<Rightarrow> osv \<Rightarrow> sssv \<Rightarrow> 'i"
  updateFSHMM :: "'i \<Rightarrow> osv \<Rightarrow> sssv \<Rightarrow> 'i"

record ('i, 'u, 'r) kalman_model = "('i, 'u, 'r) model" +
  initKalmanMean :: "sssv \<Rightarrow> nsssv"
  initKalmanVar :: "sssv \<Rightarrow> nsssMat"
  kalman_ctor :: "nsssv \<Rightarrow> nsssMat \<Rightarrow> 'i"
  updateKalman :: "'i \<Rightarrow> osv \<Rightarrow> sssv \<Rightarrow> 'i"

type_synonym functional = "nsssv \<Rightarrow> sssv \<Rightarrow> Mat"


section \<open>Constructors and accessors\<close>

text \<open>
  Both constructors have the same initialiser list.  The arrays hold whatever their
  elements are default-constructed to (\<open>i0\<close>, \<open>x0\<close>, \<open>w0\<close>: the call of
  \<^verbatim>\<open>std::fill\<close> in the body names no value), the vector of expectations is empty, and
  the resampling schedule is stored as it comes.
\<close>

definition rbpf_hmm_ctor ::
  "nat \<Rightarrow> 'i \<Rightarrow> sssv \<Rightarrow> double \<Rightarrow> 'r \<Rightarrow> 'u \<Rightarrow> 32 word \<Rightarrow> ('i, 'u, 'r) rbpf" where
  "rbpf_hmm_ctor nparts i0 x0 w0 r0 u0 resamp_sched =
     \<lparr>m_now = 0, m_lastLogCondLike = Finite 0, m_rs = resamp_sched,
      m_p_innerMods = replicate nparts i0, m_p_samps = replicate nparts x0,
      m_logUnNormWeights = replicate nparts w0, m_resampler = r0,
      m_expectations = [], m_user = u0\<rparr>"

definition rbpf_kalman_ctor ::
  "nat \<Rightarrow> 'i \<Rightarrow> sssv \<Rightarrow> double \<Rightarrow> 'r \<Rightarrow> 'u \<Rightarrow> 32 word \<Rightarrow> ('i, 'u, 'r) rbpf" where
  "rbpf_kalman_ctor nparts i0 x0 w0 r0 u0 resamp_sched =
     \<lparr>m_now = 0, m_lastLogCondLike = Finite 0, m_rs = resamp_sched,
      m_p_innerMods = replicate nparts i0, m_p_samps = replicate nparts x0,
      m_logUnNormWeights = replicate nparts w0, m_resampler = r0,
      m_expectations = [], m_user = u0\<rparr>"

text \<open>\<^verbatim>\<open>getLogCondLike\<close> and \<^verbatim>\<open>getExpectations\<close>, the same in both classes.\<close>

definition getLogCondLike :: "('i, 'u, 'r) rbpf \<Rightarrow> double" where
  "getLogCondLike s = m_lastLogCondLike s"

definition getExpectations :: "('i, 'u, 'r) rbpf \<Rightarrow> Mat list" where
  "getExpectations s = m_expectations s"


section \<open>The blocks the four branches of \<^verbatim>\<open>filter\<close> share\<close>

text \<open>The loop \<^verbatim>\<open>for p: sumexp += std::exp(m_logUnNormWeights[p] - m)\<close>.\<close>

definition sum_exp_shifted :: "nat \<Rightarrow> double list \<Rightarrow> double \<Rightarrow> double" where
  "sum_exp_shifted nparts ws m =
     fold (\<lambda>p acc. dadd acc (dexp (dsub (ws ! p) m))) [0..<nparts] (Finite 0)"

text \<open>
  One turn of the loop over the particles in the expectation block:
  \<^verbatim>\<open>tmp = h(...); tmp = tmp.array().log().matrix() + (w[prtcl] - m)*ones;\<close>
  \<^verbatim>\<open>numer = numer + tmp.array().exp().matrix(); denom += std::exp(w[prtcl] - m);\<close>
  The temporaries are \<^verbatim>\<open>dimOut\<close> by \<^verbatim>\<open>dimOut\<close>, so an output of another shape
  stops the call.
\<close>

definition expect_particle ::
  "('i \<Rightarrow> nsssv) \<Rightarrow> functional \<Rightarrow> 'i list \<Rightarrow> sssv list \<Rightarrow> double list \<Rightarrow> double
     \<Rightarrow> nat \<Rightarrow> Mat \<Rightarrow> nat \<Rightarrow> fault + Mat \<times> double \<Rightarrow> fault + Mat \<times> double" where
  "expect_particle gfv h mods samps ws m dimOut ones prtcl acc =
     (case acc of
        Inl e \<Rightarrow> Inl e
      | Inr (numer, denom) \<Rightarrow>
          (let tmp = h (gfv (mods ! prtcl)) (samps ! prtcl) in
           if has_shape dimOut dimOut tmp then
             (let tmp' = mat_add (mat_log tmp) (mat_scale (dsub (ws ! prtcl) m) ones)
              in Inr (mat_add numer (mat_exp tmp'),
                      dadd denom (dexp (dsub (ws ! prtcl) m))))
           else Inl ShapeMismatch))"

text \<open>
  The body of \<^verbatim>\<open>for(auto & h : fs)\<close> up to the quotient \<^verbatim>\<open>numer/denom\<close>.  The
  source sets \<^verbatim>\<open>dimOut\<close> from the output of \<open>h\<close> at particle 0; here it is the number
  of rows of that output.
\<close>

definition expectation ::
  "nat \<Rightarrow> ('i \<Rightarrow> nsssv) \<Rightarrow> functional \<Rightarrow> 'i list \<Rightarrow> sssv list \<Rightarrow> double list \<Rightarrow> double
     \<Rightarrow> fault + Mat" where
  "expectation nparts gfv h mods samps ws m =
     (let dimOut = length (h (gfv (mods ! 0)) (samps ! 0));
          numer = mat_Zero dimOut dimOut;
          ones = mat_Ones dimOut dimOut
      in case fold (expect_particle gfv h mods samps ws m dimOut ones) [0..<nparts]
                (Inr (numer, Finite 0)) of
           Inl e \<Rightarrow> Inl e
         | Inr (numer', denom) \<Rightarrow> Inr (mat_div numer' denom))"

text \<open>
  The loop over the functionals: each quotient is written to
  \<^verbatim>\<open>m_expectations[fId]\<close> and \<^verbatim>\<open>fId\<close> goes up by one.  \<^verbatim>\<open>operator[]\<close> of a
  vector does not check its index.  The counter is a natural number here: a list of
  functionals is shorter than \<open>2\<^sup>3\<^sup>2\<close>.
\<close>

fun calc_expectations ::
  "nat \<Rightarrow> ('i \<Rightarrow> nsssv) \<Rightarrow> 'i list \<Rightarrow> sssv list \<Rightarrow> double list \<Rightarrow> double
     \<Rightarrow> functional list \<Rightarrow> nat \<Rightarrow> Mat list \<Rightarrow> fault + Mat list" where
  "calc_expectations nparts gfv mods samps ws m [] fId exps = Inr exps"
| "calc_expectations nparts gfv mods samps ws m (h # fs) fId exps =
     (case expectation nparts gfv h mods samps ws m of
        Inl e \<Rightarrow> Inl e
      | Inr v \<Rightarrow>
          if fId < length exps
          then calc_expectations nparts gfv mods samps ws m fs (fId + 1) (exps[fId := v])
          else Inl VectorIndexOutOfRange)"

text \<open>The block under \<^verbatim>\<open>// calculate expectations before you resample\<close>, from the
  call of \<^verbatim>\<open>std::max_element\<close> on.\<close>

definition expectations_block ::
  "nat \<Rightarrow> ('i, 'u, 'r, 'z) model_scheme \<Rightarrow> functional list \<Rightarrow> ('i, 'u, 'r) rbpf
     \<Rightarrow> fault + ('i, 'u, 'r) rbpf" where
  "expectations_block nparts M fs s =
     (case max_element (m_logUnNormWeights s) of
        Inl e \<Rightarrow> Inl e
      | Inr m \<Rightarrow>
          (case calc_expectations nparts (getFilterVec M) (m_p_innerMods s) (m_p_samps s)
                  (m_logUnNormWeights s) m fs 0 (m_expectations s) of
             Inl e \<Rightarrow> Inl e
           | Inr exps \<Rightarrow> Inr (s\<lparr>m_expectations := exps\<rparr>)))"

text \<open>\<^verbatim>\<open>m_resampler.resampLogWts(m_p_innerMods, m_p_samps, m_logUnNormWeights)\<close>.\<close>

definition resample :: "('i, 'u, 'r, 'z) model_scheme \<Rightarrow> ('i, 'u, 'r) rbpf \<Rightarrow> ('i, 'u, 'r) rbpf" where
  "resample M s =
     (case resampLogWts M (m_resampler s) (m_p_innerMods s) (m_p_samps s)
             (m_logUnNormWeights s) of
        (r, mods, samps, ws) \<Rightarrow>
          s\<lparr>m_resampler := r, m_p_innerMods := mods, m_p_samps := samps,
            m_logUnNormWeights := ws\<rparr>)"

text \<open>
  The end of each branch: \<^verbatim>\<open>if( (m_now+1) % m_rs == 0) resample; m_now++;\<close>.
  The remainder is taken on \<^verbatim>\<open>unsigned int\<close>; by zero it is undefined.
\<close>

definition resample_and_advance ::
  "('i, 'u, 'r, 'z) model_scheme \<Rightarrow> ('i, 'u, 'r) rbpf \<Rightarrow> fault + ('i, 'u, 'r) rbpf" where
  "resample_and_advance M s =
     (if m_rs s = 0 then Inl ModuloByZero
      else (let s' = (if (m_now s + 1) mod m_rs s = 0 then resample M s else s)
            in Inr (s'\<lparr>m_now := m_now s' + 1\<rparr>)))"


section \<open>\<^verbatim>\<open>rbpf_hmm::filter\<close>\<close>

text \<open>One turn of the first loop (\<^verbatim>\<open>m_now == 0\<close>): sample, build and update the inner
  filter, set the log-weight, keep the maximum.\<close>

definition hmm_init_particle ::
  "('i, 'u, 'r) hmm_model \<Rightarrow> osv \<Rightarrow> nat \<Rightarrow> ('i, 'u, 'r) rbpf \<times> double
     \<Rightarrow> ('i, 'u, 'r) rbpf \<times> double" where
  "hmm_init_particle M data ii = (\<lambda>(s, m).
     (case q1Samp M data (m_user s) of
        (x, u') \<Rightarrow>
          (let samps = (m_p_samps s)[ii := x];
               tmpProbs = initHMMProbVec M (samps ! ii);
               tmpTransMat = initHMMTransMat M (samps ! ii);
               mods0 = (m_p_innerMods s)[ii := hmm_ctor M tmpProbs tmpTransMat];
               mods = mods0[ii := updateHMM M (mods0 ! ii) data (samps ! ii)];
               ws = (m_logUnNormWeights s)[ii :=
                      dsub (dadd (inner_getLogCondLike M (mods ! ii)) (logMuEv M (samps ! ii)))
                           (logQ1Ev M (samps ! ii) data)];
               m' = (if dgt (ws ! ii) m then ws ! ii else m)
           in (s\<lparr>m_user := u', m_p_samps := samps, m_p_innerMods := mods,
                  m_logUnNormWeights := ws\<rparr>, m'))))"

text \<open>
  One turn of the loop of the later steps.  The source computes the sum
  \<^verbatim>\<open>getLogCondLike() + logFEv(...) - logQEv(...)\<close> into
  \<^verbatim>\<open>logUnNormWeightUpdate\<close> and does nothing with it: no statement of the loop
  writes \<^verbatim>\<open>m_logUnNormWeights[ii]\<close>.
\<close>

definition hmm_update_particle ::
  "('i, 'u, 'r) hmm_model \<Rightarrow> osv \<Rightarrow> double \<Rightarrow> nat
     \<Rightarrow> ('i, 'u, 'r) rbpf \<times> double \<times> double \<Rightarrow> ('i, 'u, 'r) rbpf \<times> double \<times> double" where
  "hmm_update_particle M data m2 ii = (\<lambda>(s, sumexpdenom, m1).
     (case qSamp M (m_p_samps s ! ii) data (m_user s) of
        (newX2Samp, u') \<Rightarrow>
          (let mods = (m_p_innerMods s)[ii :=
                        updateFSHMM M (m_p_innerMods s ! ii) data newX2Samp];
               sumexpdenom' = dadd sumexpdenom (dexp (dsub (m_logUnNormWeights s ! ii) m2));
               logUnNormWeightUpdate =
                 dsub (dadd (inner_getLogCondLike M (mods ! ii))
                            (logFEv M newX2Samp (m_p_samps s ! ii)))
                      (logQEv M newX2Samp (m_p_samps s ! ii) data);
               m1' = (if dgt (m_logUnNormWeights s ! ii) m1
                      then m_logUnNormWeights s ! ii else m1);
               samps = (m_p_samps s)[ii := newX2Samp]
           in (s\<lparr>m_user := u', m_p_innerMods := mods, m_p_samps := samps\<rparr>,
               sumexpdenom', m1'))))"

text \<open>
  The member function.  In the sum of the later steps the source writes
  \<^verbatim>\<open>std::exp(m_logUnNormWeights - m1)\<close> without the index; it is read with the index
  \<^verbatim>\<open>[p]\<close> of the loop it stands in.
\<close>

definition rbpf_hmm_filter ::
  "nat \<Rightarrow> ('i, 'u, 'r) hmm_model \<Rightarrow> osv \<Rightarrow> functional list \<Rightarrow> ('i, 'u, 'r) rbpf
     \<Rightarrow> fault + ('i, 'u, 'r) rbpf" where
  "rbpf_hmm_filter nparts M data fs s =
     (if m_now s = 0 then
        (case fold (hmm_init_particle M data) [0..<nparts] (s, neg_infinity) of
           (s1, m) \<Rightarrow>
             (let sumexp = sum_exp_shifted nparts (m_logUnNormWeights s1) m;
                  s2 = s1\<lparr>m_lastLogCondLike :=
                          dsub (dadd m (dlog sumexp)) (dlog (Finite (real nparts)))\<rparr>;
                  s3 = s2\<lparr>m_expectations := resize_vec (length fs) (m_expectations s2)\<rparr>
              in case expectations_block nparts M fs s3 of
                   Inl e \<Rightarrow> Inl e
                 | Inr s4 \<Rightarrow> resample_and_advance M s4))
      else
        (case max_element (m_logUnNormWeights s) of
           Inl e \<Rightarrow> Inl e
         | Inr m2 \<Rightarrow>
             (case fold (hmm_update_particle M data m2) [0..<nparts]
                     (s, Finite 0, neg_infinity) of
                (s1, sumexpdenom, m1) \<Rightarrow>
                  (let sumexpnumer = sum_exp_shifted nparts (m_logUnNormWeights s1) m1;
                       s2 = s1\<lparr>m_lastLogCondLike :=
                               dsub (dsub (dadd m1 (dlog sumexpnumer)) m2)
                                    (dlog sumexpdenom)\<rparr>
                   in case expectations_block nparts M fs s2 of
                        Inl e \<Rightarrow> Inl e
                      | Inr s3 \<Rightarrow> resample_and_advance M s3))))"


section \<open>\<^verbatim>\<open>rbpf_kalman::filter\<close>\<close>

definition kalman_init_particle ::
  "('i, 'u, 'r) kalman_model \<Rightarrow> osv \<Rightarrow> nat \<Rightarrow> ('i, 'u, 'r) rbpf \<times> double
     \<Rightarrow> ('i, 'u, 'r) rbpf \<times> double" where
  "kalman_init_particle M data ii = (\<lambda>(s, m1).
     (case q1Samp M data (m_user s) of
        (x, u') \<Rightarrow>
          (let samps = (m_p_samps s)[ii := x];
               tmpMean = initKalmanMean M (samps ! ii);
               tmpVar = initKalmanVar M (samps ! ii);
               mods0 = (m_p_innerMods s)[ii := kalman_ctor M tmpMean tmpVar];
               mods = mods0[ii := updateKalman M (mods0 ! ii) data (samps ! ii)];
               ws = (m_logUnNormWeights s)[ii :=
                      dsub (dadd (inner_getLogCondLike M (mods ! ii)) (logMuEv M (samps ! ii)))
                           (logQ1Ev M (samps ! ii) data)];
               m1' = (if dgt (ws ! ii) m1 then ws ! ii else m1)
           in (s\<lparr>m_user := u', m_p_samps := samps, m_p_innerMods := mods,
                  m_logUnNormWeights := ws\<rparr>, m1'))))"

text \<open>
  One turn of the loop of the later steps:
  \<^verbatim>\<open>m_logUnNormWeights[ii] += getLogCondLike() * logFEv(...) - logQEv(...)\<close>,
  with the product the source writes.
\<close>

definition kalman_update_particle ::
  "('i, 'u, 'r) kalman_model \<Rightarrow> osv \<Rightarrow> double \<Rightarrow> nat
     \<Rightarrow> ('i, 'u, 'r) rbpf \<times> double \<times> double \<Rightarrow> ('i, 'u, 'r) rbpf \<times> double \<times> double" where
  "kalman_update_particle M data m2 ii = (\<lambda>(s, sumexpdenom, m1).
     (case qSamp M (m_p_samps s ! ii) data (m_user s) of
        (newX2Samp, u') \<Rightarrow>
          (let mods = (m_p_innerMods s)[ii :=
                        updateKalman M (m_p_innerMods s ! ii) data newX2Samp];
               sumexpdenom' = dadd sumexpdenom (dexp (dsub (m_logUnNormWeights s ! ii) m2));
               ws = (m_logUnNormWeights s)[ii :=
                      dadd (m_logUnNormWeights s ! ii)
                        (dsub (dmul (inner_getLogCondLike M (mods ! ii))
                                    (logFEv M newX2Samp (m_p_samps s ! ii)))
                              (logQEv M newX2Samp (m_p_samps s ! ii) data))];
               m1' = (if dgt (ws ! ii) m1 then ws ! ii else m1);
               samps = (m_p_samps s)[ii := newX2Samp]
           in (s\<lparr>m_user := u', m_p_innerMods := mods, m_logUnNormWeights := ws,
                  m_p_samps := samps\<rparr>,
               sumexpdenom', m1'))))"

text \<open>
  The two values this member function computes for the log-likelihood, as functions of
  what the loops leave.  The source assigns the first to \<^verbatim>\<open>m_logLastCondLike\<close> and the
  second to \<^verbatim>\<open>m_lastCondLike\<close>; the member that \<^verbatim>\<open>getLogCondLike\<close> returns is
  \<^verbatim>\<open>m_lastLogCondLike\<close>, and no statement of \<^verbatim>\<open>rbpf_kalman::filter\<close> writes it.
\<close>

definition kalman_first_loglike :: "nat \<Rightarrow> double list \<Rightarrow> double \<Rightarrow> double" where
  "kalman_first_loglike nparts ws m1 =
     dsub (dadd m1 (dlog (sum_exp_shifted nparts ws m1))) (dlog (Finite (real nparts)))"

definition kalman_next_loglike ::
  "nat \<Rightarrow> double list \<Rightarrow> double \<Rightarrow> double \<Rightarrow> double \<Rightarrow> double" where
  "kalman_next_loglike nparts ws m1 m2 sumexpdenom =
     dsub (dsub (dadd m1 (dlog (sum_exp_shifted nparts ws m1))) m2) (dlog sumexpdenom)"

definition rbpf_kalman_filter ::
  "nat \<Rightarrow> ('i, 'u, 'r) kalman_model \<Rightarrow> osv \<Rightarrow> functional list \<Rightarrow> ('i, 'u, 'r) rbpf
     \<Rightarrow> fault + ('i, 'u, 'r) rbpf" where
  "rbpf_kalman_filter nparts M data fs s =
     (if m_now s = 0 then
        (case fold (kalman_init_particle M data) [0..<nparts] (s, neg_infinity) of
           (s1, m1) \<Rightarrow>
             (let m_logLastCondLike = kalman_first_loglike nparts (m_logUnNormWeights s1) m1;
                  s3 = s1\<lparr>m_expectations := resize_vec (length fs) (m_expectations s1)\<rparr>
              in case expectations_block nparts M fs s3 of
                   Inl e \<Rightarrow> Inl e
                 | Inr s4 \<Rightarrow> resample_and_advance M s4))
      else
        (case max_element (m_logUnNormWeights s) of
           Inl e \<Rightarrow> Inl e
         | Inr m2 \<Rightarrow>
             (case fold (kalman_update_particle M data m2) [0..<nparts]
                     (s, Finite 0, neg_infinity) of
                (s1, sumexpdenom, m1) \<Rightarrow>
                  (let m_lastCondLike =
                         kalman_next_loglike nparts (m_logUnNormWeights s1) m1 m2 sumexpdenom
                   in case expectations_block nparts M fs s1 of
                        Inl e \<Rightarrow> Inl e
                      | Inr s3 \<Rightarrow> resample_and_advance M s3))))"


section \<open>Sequences of calls\<close>

text \<open>A caller runs \<^verbatim>\<open>filter\<close> on one observation after the other, each with its
  list of functionals; a call that stops ends the run.\<close>

fun run_calls ::
  "(osv \<Rightarrow> functional list \<Rightarrow> 's \<Rightarrow> fault + 's) \<Rightarrow> (osv \<times> functional list) list \<Rightarrow> 's
     \<Rightarrow> fault + 's" where
  "run_calls f [] s = Inr s"
| "run_calls f ((data, fs) # calls) s =
     (case f data fs s of
        Inl e \<Rightarrow> Inl e
      | Inr s' \<Rightarrow> run_calls f calls s')"

definition hmm_run ::
  "nat \<Rightarrow> ('i, 'u, 'r) hmm_model \<Rightarrow> (osv \<times> functional list) list \<Rightarrow> ('i, 'u, 'r) rbpf
     \<Rightarrow> fault + ('i, 'u, 'r) rbpf" where
  "hmm_run nparts M calls s = run_calls (rbpf_hmm_filter nparts M) calls s"

definition kalman_run ::
  "nat \<Rightarrow> ('i, 'u, 'r) kalman_model \<Rightarrow> (osv \<times> functional list) list \<Rightarrow> ('i, 'u, 'r) rbpf
     \<Rightarrow> fault + ('i, 'u, 'r) rbpf" where
  "kalman_run nparts M calls s = run_calls (rbpf_kalman_filter nparts M) calls s"


section \<open>The phases of a call\<close>

text \<open>
  Each branch of \<^verbatim>\<open>filter\<close> is a loop over the particles with the log-likelihood
  after it, then the expectation block, then the resampling and the counter.  The first
  part is written out once more here for each engine, as a function of its own, so that
  the order of the parts can be stated; \<open>after_weights\<close> is the rest.  In the first
  branch the vector of expectations is resized before the expectation block.
\<close>

definition hmm_weights_phase ::
  "nat \<Rightarrow> ('i, 'u, 'r) hmm_model \<Rightarrow> osv \<Rightarrow> functional list \<Rightarrow> ('i, 'u, 'r) rbpf
     \<Rightarrow> fault + ('i, 'u, 'r) rbpf" where
  "hmm_weights_phase nparts M data fs s =
     (if m_now s = 0 then
        (case fold (hmm_init_particle M data) [0..<nparts] (s, neg_infinity) of
           (s1, m) \<Rightarrow>
             Inr (s1\<lparr>m_lastLogCondLike :=
                       dsub (dadd m (dlog (sum_exp_shifted nparts (m_logUnNormWeights s1) m)))
                            (dlog (Finite (real nparts))),
                     m_expectations := resize_vec (length fs) (m_expectations s1)\<rparr>))
      else
        (case max_element (m_logUnNormWeights s) of
           Inl e \<Rightarrow> Inl e
         | Inr m2 \<Rightarrow>
             (case fold (hmm_update_particle M data m2) [0..<nparts]
                     (s, Finite 0, neg_infinity) of
                (s1, sumexpdenom, m1) \<Rightarrow>
                  Inr (s1\<lparr>m_lastLogCondLike :=
                            dsub (dsub (dadd m1 (dlog (sum_exp_shifted nparts
                                                        (m_logUnNormWeights s1) m1))) m2)
                                 (dlog sumexpdenom)\<rparr>))))"

definition kalman_weights_phase ::
  "nat \<Rightarrow> ('i, 'u, 'r) kalman_model \<Rightarrow> osv \<Rightarrow> functional list \<Rightarrow> ('i, 'u, 'r) rbpf
     \<Rightarrow> fault + ('i, 'u, 'r) rbpf" where
  "kalman_weights_phase nparts M data fs s =
     (if m_now s = 0 then
        (case fold (kalman_init_particle M data) [0..<nparts] (s, neg_infinity) of
           (s1, m1) \<Rightarrow>
             Inr (s1\<lparr>m_expectations := resize_vec (length fs) (m_expectations s1)\<rparr>))
      else
        (case max_element (m_logUnNormWeights s) of
           Inl e \<Rightarrow> Inl e
         | Inr m2 \<Rightarrow>
             (case fold (kalman_update_particle M data m2) [0..<nparts]
                     (s, Finite 0, neg_infinity) of
                (s1, sumexpdenom, m1) \<Rightarrow> Inr s1)))"

definition after_weights ::
  "nat \<Rightarrow> ('i, 'u, 'r, 'z) model_scheme \<Rightarrow> functional list \<Rightarrow> fault + ('i, 'u, 'r) rbpf
     \<Rightarrow> fault + ('i, 'u, 'r) rbpf" where
  "after_weights nparts M fs r =
     (case r of
        Inl e \<Rightarrow> Inl e
      | Inr q \<Rightarrow>
          (case expectations_block nparts M fs q of
             Inl e \<Rightarrow> Inl e
           | Inr p \<Rightarrow> resample_and_advance M p))"

text \<open>What a loop over the particles may change: the three arrays, not their lengths,
  and the state of the samplers.\<close>

definition particles_only :: "('i, 'u, 'r) rbpf \<Rightarrow> ('i, 'u, 'r) rbpf \<Rightarrow> bool" where
  "particles_only s s' =
     (m_now s' = m_now s \<and> m_lastLogCondLike s' = m_lastLogCondLike s \<and> m_rs s' = m_rs s
      \<and> m_resampler s' = m_resampler s \<and> m_expectations s' = m_expectations s
      \<and> length (m_p_innerMods s') = length (m_p_innerMods s)
      \<and> length (m_p_samps s') = length (m_p_samps s)
      \<and> length (m_logUnNormWeights s') = length (m_logUnNormWeights s))"


text \<open>What the first part of a call hands to the rest.\<close>

definition phase_ok ::
  "functional list \<Rightarrow> ('i, 'u, 'r) rbpf \<Rightarrow> fault + ('i, 'u, 'r) rbpf \<Rightarrow> bool" where
  "phase_ok fs s r =
     (case r of
        Inl e \<Rightarrow> e = EmptyRangeDeref \<and> m_logUnNormWeights s = []
      | Inr q \<Rightarrow>
          m_now q = m_now s \<and> m_rs q = m_rs s \<and> m_resampler q = m_resampler s
          \<and> length (m_logUnNormWeights q) = length (m_logUnNormWeights s)
          \<and> m_expectations q =
              (if m_now s = 0 then resize_vec (length fs) (m_expectations s)
               else m_expectations s))"


section \<open>What the specification writes\<close>

text \<open>
  The formulas of the specification, in its own words, to compare the code with.
  \<open>spec_max\<close> is \<open>max\<^sub>i logw[i]\<close>, \<open>logsumexp\<close> is
  \<open>M + log \<Sigma> exp(logw[i] - M)\<close>, \<open>spec_weight_update\<close> is the right-hand side of
  step 3 of the later steps, \<open>spec_first_weight\<close> that of the first step, and
  \<open>spec_expectation\<close> is \<open>numer / denom\<close> with
  \<open>numer = \<Sigma>\<^sub>i h(inner[i].belief, samples[i]) \<cdot> exp(logw[i] - m)\<close>.
\<close>

definition spec_max :: "double list \<Rightarrow> double" where
  "spec_max ws = fold (\<lambda>w M. if dlt M w then w else M) ws NegInf"

definition logsumexp :: "double list \<Rightarrow> double" where
  "logsumexp ws =
     (let M = spec_max ws
      in dadd M (dlog (fold (\<lambda>w acc. dadd acc (dexp (dsub w M))) ws (Finite 0))))"

definition spec_weight_update :: "double \<Rightarrow> double \<Rightarrow> double \<Rightarrow> double \<Rightarrow> double" where
  "spec_weight_update logw lastLogCondLike log_f log_q =
     dsub (dadd (dadd logw lastLogCondLike) log_f) log_q"

definition spec_first_weight :: "double \<Rightarrow> double \<Rightarrow> double \<Rightarrow> double" where
  "spec_first_weight lastLogCondLike log_mu log_q1 =
     dsub (dadd lastLogCondLike log_mu) log_q1"

definition spec_expectation ::
  "nat \<Rightarrow> ('i \<Rightarrow> nsssv) \<Rightarrow> functional \<Rightarrow> 'i list \<Rightarrow> sssv list \<Rightarrow> double list \<Rightarrow> double
     \<Rightarrow> Mat" where
  "spec_expectation nparts gfv h mods samps ws m =
     (let d = length (h (gfv (mods ! 0)) (samps ! 0));
          denom = fold (\<lambda>i acc. dadd acc (dexp (dsub (ws ! i) m))) [0..<nparts] (Finite 0);
          numer = fold (\<lambda>i acc. mat_add acc
                      (mat_scale (dexp (dsub (ws ! i) m)) (h (gfv (mods ! i)) (samps ! i))))
                    [0..<nparts] (mat_Zero d d)
      in mat_div numer denom)"


text \<open>A double that is a number, and one that is not below zero.\<close>

fun is_finite :: "double \<Rightarrow> bool" where
  "is_finite (Finite a) = True"
| "is_finite NaN = False"
| "is_finite NegInf = False"
| "is_finite PosInf = False"



text \<open>
  \<open>m = max\<^sub>i logw[i]\<close>: a value of the list that no element exceeds (the first such
  element when a NaN stands in front); and the maximum the loops keep while they run, which
  starts at minus infinity and stays there when no log-weight is above it.
\<close>

definition is_maximum_of :: "double \<Rightarrow> double list \<Rightarrow> bool" where
  "is_maximum_of m ws = (m \<in> set ws \<and> list_all (\<lambda>w. \<not> dlt m w) ws)"

definition is_running_maximum_of :: "double \<Rightarrow> double list \<Rightarrow> bool" where
  "is_running_maximum_of m ws =
     ((m = neg_infinity \<or> m \<in> set ws) \<and> list_all (\<lambda>w. \<not> dlt m w) ws)"

text \<open>
  What a step does to one particle, as a triple of inner filter, sample and log-weight.
  First step: \<open>x\<^sub>2 \<leftarrow> q1_sample(y\<^sub>1)\<close>, \<open>inner \<leftarrow> init_inner(x\<^sub>2)\<close> updated with
  \<open>(y\<^sub>1, x\<^sub>2)\<close>, \<open>logw \<leftarrow> inner.lastLogCondLike + log_mu(x\<^sub>2) - log_q1(x\<^sub>2, y\<^sub>1)\<close>.
  Later steps: \<open>x\<^sub>2' \<leftarrow> q_sample(x\<^sub>2, y\<^sub>t)\<close> and the inner filter updated with
  \<open>(y\<^sub>t, x\<^sub>2')\<close>; the log-weight of a later step is the subject of its own section and is
  left open here.
\<close>

definition hmm_first_particle ::
  "('i, 'u, 'r) hmm_model \<Rightarrow> osv \<Rightarrow> 'i \<times> sssv \<times> double \<Rightarrow> bool" where
  "hmm_first_particle M data p =
     (case p of (inner, x, w) \<Rightarrow>
        (\<exists>u. x = fst (q1Samp M data u))
        \<and> inner = updateHMM M (hmm_ctor M (initHMMProbVec M x) (initHMMTransMat M x)) data x
        \<and> w = dsub (dadd (inner_getLogCondLike M inner) (logMuEv M x)) (logQ1Ev M x data))"

definition kalman_first_particle ::
  "('i, 'u, 'r) kalman_model \<Rightarrow> osv \<Rightarrow> 'i \<times> sssv \<times> double \<Rightarrow> bool" where
  "kalman_first_particle M data p =
     (case p of (inner, x, w) \<Rightarrow>
        (\<exists>u. x = fst (q1Samp M data u))
        \<and> inner = updateKalman M (kalman_ctor M (initKalmanMean M x) (initKalmanVar M x)) data x
        \<and> w = dsub (dadd (inner_getLogCondLike M inner) (logMuEv M x)) (logQ1Ev M x data))"

definition hmm_later_particle ::
  "('i, 'u, 'r) hmm_model \<Rightarrow> osv \<Rightarrow> 'i \<times> sssv \<times> double \<Rightarrow> 'i \<times> sssv \<times> double \<Rightarrow> bool" where
  "hmm_later_particle M data p p' =
     (case p of (inner, x, w) \<Rightarrow> case p' of (inner', x', w') \<Rightarrow>
        (\<exists>u. x' = fst (qSamp M x data u)) \<and> inner' = updateFSHMM M inner data x')"

definition kalman_later_particle ::
  "('i, 'u, 'r) kalman_model \<Rightarrow> osv \<Rightarrow> 'i \<times> sssv \<times> double \<Rightarrow> 'i \<times> sssv \<times> double \<Rightarrow> bool" where
  "kalman_later_particle M data p p' =
     (case p of (inner, x, w) \<Rightarrow> case p' of (inner', x', w') \<Rightarrow>
        (\<exists>u. x' = fst (qSamp M x data u)) \<and> inner' = updateKalman M inner data x')"


section \<open>Quantities of the statements and of their proofs\<close>

text \<open>
  The value \<^verbatim>\<open>rbpf_kalman::filter\<close> computes for the log-likelihood in a call, read
  off the same loops: the right-hand side of the assignment to \<^verbatim>\<open>m_logLastCondLike\<close>
  in the first branch and to \<^verbatim>\<open>m_lastCondLike\<close> in the second.
\<close>

definition kalman_increment ::
  "nat \<Rightarrow> ('i, 'u, 'r) kalman_model \<Rightarrow> osv \<Rightarrow> ('i, 'u, 'r) rbpf \<Rightarrow> fault + double" where
  "kalman_increment nparts M data s =
     (if m_now s = 0 then
        (case fold (kalman_init_particle M data) [0..<nparts] (s, neg_infinity) of
           (s1, m1) \<Rightarrow> Inr (kalman_first_loglike nparts (m_logUnNormWeights s1) m1))
      else
        (case max_element (m_logUnNormWeights s) of
           Inl e \<Rightarrow> Inl e
         | Inr m2 \<Rightarrow>
             (case fold (kalman_update_particle M data m2) [0..<nparts]
                     (s, Finite 0, neg_infinity) of
                (s1, sumexpdenom, m1) \<Rightarrow>
                  Inr (kalman_next_loglike nparts (m_logUnNormWeights s1) m1 m2 sumexpdenom))))"




text \<open>The sum a loop accumulates from 0.0, in the order of the loop; a square matrix
  given by its entries; and what the expectation loop adds to an entry of
  \<^verbatim>\<open>numer\<close> for an entry \<open>x\<close> of the functional's output and a shifted log-weight
  \<open>w\<close>.\<close>

definition dsum :: "nat \<Rightarrow> (nat \<Rightarrow> double) \<Rightarrow> double" where
  "dsum n t = fold (\<lambda>i acc. dadd acc (t i)) [0..<n] (Finite 0)"




text \<open>
  The three arrays are \<^verbatim>\<open>std::array\<close>s of \<^verbatim>\<open>nparts\<close> elements; particle \<open>i\<close> is
  what they hold at index \<open>i\<close>; and \<^verbatim>\<open>h(m_p_innerMods[prtcl].getFilterVec(), m_p_samps[prtcl])\<close>
  is the output of a functional at a particle.
\<close>

definition arrays_sized :: "nat \<Rightarrow> ('i, 'u, 'r) rbpf \<Rightarrow> bool" where
  "arrays_sized nparts s =
     (length (m_p_innerMods s) = nparts \<and> length (m_p_samps s) = nparts
      \<and> length (m_logUnNormWeights s) = nparts)"

definition particle :: "('i, 'u, 'r) rbpf \<Rightarrow> nat \<Rightarrow> 'i \<times> sssv \<times> double" where
  "particle s i = (m_p_innerMods s ! i, m_p_samps s ! i, m_logUnNormWeights s ! i)"



section \<open>A small model to run the engines on\<close>

text \<open>
  Two particles.  An inner filter object is the pair of its last log conditional
  likelihood and its filter vector; every update sets the first to 2.  The user's state
  counts the samples drawn and the resampler's state counts its calls; the resampler
  keeps every particle and sets the weights to \<open>- log N\<close>.  The densities are constant:
  \<open>log_mu = 0\<close>, \<open>log_q1 = 0\<close>, \<open>log_f = 3\<close>, \<open>log_q = 1\<close>.
\<close>

type_synonym demo_inner = "double \<times> vec"

definition demo_resampler ::
  "nat \<Rightarrow> demo_inner list \<Rightarrow> sssv list \<Rightarrow> double list
     \<Rightarrow> nat \<times> demo_inner list \<times> sssv list \<times> double list" where
  "demo_resampler r mods samps ws =
     (Suc r, mods, samps, replicate (length ws) (dneg (dlog (Finite (real (length ws))))))"

definition demo_hmm :: "(demo_inner, nat, nat) hmm_model" where
  "demo_hmm =
     \<lparr>logMuEv = (\<lambda>x. Finite 0),
      q1Samp = (\<lambda>y u. (y, Suc u)),
      qSamp = (\<lambda>x y u. (x, Suc u)),
      logQ1Ev = (\<lambda>x y. Finite 0),
      logFEv = (\<lambda>x x'. Finite 3),
      logQEv = (\<lambda>x x' y. Finite 1),
      inner_getLogCondLike = fst,
      getFilterVec = snd,
      resampLogWts = demo_resampler,
      initHMMProbVec = (\<lambda>x. [Finite 1]),
      initHMMTransMat = (\<lambda>x. [[Finite 1]]),
      hmm_ctor = (\<lambda>probs trans. (Finite 0, probs)),
      updateHMM = (\<lambda>i y x. (Finite 2, snd i)),
      updateFSHMM = (\<lambda>i y x. (Finite 2, snd i))\<rparr>"

definition demo_kalman :: "(demo_inner, nat, nat) kalman_model" where
  "demo_kalman =
     \<lparr>logMuEv = (\<lambda>x. Finite 0),
      q1Samp = (\<lambda>y u. (y, Suc u)),
      qSamp = (\<lambda>x y u. (x, Suc u)),
      logQ1Ev = (\<lambda>x y. Finite 0),
      logFEv = (\<lambda>x x'. Finite 3),
      logQEv = (\<lambda>x x' y. Finite 1),
      inner_getLogCondLike = fst,
      getFilterVec = snd,
      resampLogWts = demo_resampler,
      initKalmanMean = (\<lambda>x. [Finite 1]),
      initKalmanVar = (\<lambda>x. [[Finite 1]]),
      kalman_ctor = (\<lambda>mean var. (Finite 0, mean)),
      updateKalman = (\<lambda>i y x. (Finite 2, snd i))\<rparr>"

text \<open>The engines as constructed, with resampling period \<open>R\<close>, and the states the
  demo reaches: one state after the first call, one after the second.\<close>

definition demo_hmm_fresh :: "32 word \<Rightarrow> (demo_inner, nat, nat) rbpf" where
  "demo_hmm_fresh R = rbpf_hmm_ctor 2 (Finite 0, []) [] (Finite 0) 0 0 R"

definition demo_kalman_fresh :: "32 word \<Rightarrow> (demo_inner, nat, nat) rbpf" where
  "demo_kalman_fresh R = rbpf_kalman_ctor 2 (Finite 0, []) [] (Finite 0) 0 0 R"

definition demo_state ::
  "32 word \<Rightarrow> 32 word \<Rightarrow> double \<Rightarrow> double list \<Rightarrow> nat \<Rightarrow> Mat list \<Rightarrow> nat
     \<Rightarrow> (demo_inner, nat, nat) rbpf" where
  "demo_state now R l ws r exps u =
     \<lparr>m_now = now, m_lastLogCondLike = l, m_rs = R,
      m_p_innerMods = [(Finite 2, [Finite 1]), (Finite 2, [Finite 1])],
      m_p_samps = [[Finite 0], [Finite 0]],
      m_logUnNormWeights = ws, m_resampler = r, m_expectations = exps, m_user = u\<rparr>"

text \<open>The observation of the demo, and a functional with a negative value.\<close>

definition demo_y :: osv where
  "demo_y = [Finite 0]"

definition minus_one :: functional where
  "minus_one = (\<lambda>x1 x2. [[Finite (- 1)]])"


definition plus_three :: functional where
  "plus_three = (\<lambda>x1 x2. [[Finite 3]])"

text \<open>Two calls with no functional.\<close>

definition demo_two_calls :: "(osv \<times> functional list) list" where
  "demo_two_calls = [(demo_y, []), (demo_y, [])]"


text \<open>
  A second model, whose two particles differ: the first sample is \<open>1\<close> and the second
  \<open>4\<close>, and the prior gives the second twice the weight of the first, so the
  log-weights of the first step are \<open>2\<close> and \<open>2 + ln 2\<close>.  \<open>the_sample\<close> is the functional
  \<open>h(x\<^sub>1, x\<^sub>2) = x\<^sub>2\<close>, with weighted average \<open>(1 + 2 \<cdot> 4) / 3 = 3\<close>.
\<close>

definition uneven_hmm :: "(demo_inner, nat, nat) hmm_model" where
  "uneven_hmm =
     demo_hmm\<lparr>q1Samp := (\<lambda>y u. ([Finite (if u = 0 then 1 else 4)], Suc u)),
              logMuEv := (\<lambda>x. if x = [Finite 1] then Finite 0 else Finite (ln 2))\<rparr>"

definition uneven_kalman :: "(demo_inner, nat, nat) kalman_model" where
  "uneven_kalman =
     demo_kalman\<lparr>q1Samp := (\<lambda>y u. ([Finite (if u = 0 then 1 else 4)], Suc u)),
                 logMuEv := (\<lambda>x. if x = [Finite 1] then Finite 0 else Finite (ln 2))\<rparr>"

definition uneven_state ::
  "32 word \<Rightarrow> 32 word \<Rightarrow> double \<Rightarrow> double list \<Rightarrow> nat \<Rightarrow> Mat list \<Rightarrow> nat
     \<Rightarrow> (demo_inner, nat, nat) rbpf" where
  "uneven_state now R l ws r exps u =
     \<lparr>m_now = now, m_lastLogCondLike = l, m_rs = R,
      m_p_innerMods = [(Finite 2, [Finite 1]), (Finite 2, [Finite 1])],
      m_p_samps = [[Finite 1], [Finite 4]],
      m_logUnNormWeights = ws, m_resampler = r, m_expectations = exps, m_user = u\<rparr>"

definition the_sample :: functional where
  "the_sample = (\<lambda>x1 x2. [x2])"

definition uneven_two_calls :: "(osv \<times> functional list) list" where
  "uneven_two_calls = [(demo_y, [the_sample]), (demo_y, [the_sample])]"

text \<open>A functional whose output is 1 by 2, and a model whose inner filter finds every
  observation impossible (log conditional likelihood minus infinity).\<close>

definition wide :: functional where
  "wide = (\<lambda>x1 x2. [[Finite 1, Finite 1]])"



section \<open>Running the demo\<close>

lemma upt_two: "[0..<2] = [0, Suc 0]"
  by (simp add: upt_rec)

lemma replicate_two: "replicate 2 x = [x, x]"
  by (simp add: numeral_2_eq_2)

lemma neg_infinity_eq: "neg_infinity = NegInf"
  by (simp add: neg_infinity_def)

lemmas demo_defs = demo_hmm_def demo_kalman_def demo_resampler_def demo_hmm_fresh_def
  demo_kalman_fresh_def demo_state_def demo_y_def minus_one_def plus_three_def rbpf_hmm_ctor_def
  rbpf_kalman_ctor_def

lemmas engine_defs = hmm_init_particle_def hmm_update_particle_def kalman_init_particle_def
  kalman_update_particle_def sum_exp_shifted_def kalman_first_loglike_def
  kalman_next_loglike_def expectations_block_def max_element_def resample_and_advance_def
  resample_def resize_vec_def expectation_def expect_particle_def has_shape_def dgt_def
  dsub_def neg_infinity_eq mat_Zero_def mat_Ones_def mat_log_def mat_exp_def mat_add_def
  mat_scale_def mat_div_def upt_two replicate_two Let_def

lemma demo_hmm_first:
  "rbpf_hmm_filter 2 demo_hmm demo_y [] (demo_hmm_fresh 5)
     = Inr (demo_state 1 5 (Finite 2) [Finite 2, Finite 2] 0 [] 2)"
  by (simp add: rbpf_hmm_filter_def demo_defs engine_defs)

lemma demo_hmm_second:
  "rbpf_hmm_filter 2 demo_hmm demo_y [] (demo_state 1 5 (Finite 2) [Finite 2, Finite 2] 0 [] 2)
     = Inr (demo_state 2 5 (Finite 0) [Finite 2, Finite 2] 0 [] 4)"
  by (simp add: rbpf_hmm_filter_def demo_defs engine_defs)

lemma demo_kalman_first:
  "rbpf_kalman_filter 2 demo_kalman demo_y [] (demo_kalman_fresh 5)
     = Inr (demo_state 1 5 (Finite 0) [Finite 2, Finite 2] 0 [] 2)"
  by (simp add: rbpf_kalman_filter_def demo_defs engine_defs)

lemma demo_kalman_second:
  "rbpf_kalman_filter 2 demo_kalman demo_y []
       (demo_state 1 5 (Finite 0) [Finite 2, Finite 2] 0 [] 2)
     = Inr (demo_state 2 5 (Finite 0) [Finite 7, Finite 7] 0 [] 4)"
  by (simp add: rbpf_kalman_filter_def demo_defs engine_defs)

lemma demo_hmm_minus_one:
  "rbpf_hmm_filter 2 demo_hmm demo_y [minus_one] (demo_hmm_fresh 5)
     = Inr (demo_state 1 5 (Finite 2) [Finite 2, Finite 2] 0 [[[NaN]]] 2)"
  by (simp add: rbpf_hmm_filter_def demo_defs engine_defs)

lemma demo_kalman_minus_one:
  "rbpf_kalman_filter 2 demo_kalman demo_y [minus_one] (demo_kalman_fresh 5)
     = Inr (demo_state 1 5 (Finite 0) [Finite 2, Finite 2] 0 [[[NaN]]] 2)"
  by (simp add: rbpf_kalman_filter_def demo_defs engine_defs)

lemma demo_hmm_first_R2:
  "rbpf_hmm_filter 2 demo_hmm demo_y [] (demo_hmm_fresh 2)
     = Inr (demo_state 1 2 (Finite 2) [Finite 2, Finite 2] 0 [] 2)"
  by (simp add: rbpf_hmm_filter_def demo_defs engine_defs)

lemma demo_hmm_second_R2:
  "rbpf_hmm_filter 2 demo_hmm demo_y [] (demo_state 1 2 (Finite 2) [Finite 2, Finite 2] 0 [] 2)
     = Inr (demo_state 2 2 (Finite 0) [Finite (- ln 2), Finite (- ln 2)] 1 [] 4)"
  by (simp add: rbpf_hmm_filter_def demo_defs engine_defs)

lemma demo_kalman_first_R2:
  "rbpf_kalman_filter 2 demo_kalman demo_y [] (demo_kalman_fresh 2)
     = Inr (demo_state 1 2 (Finite 0) [Finite 2, Finite 2] 0 [] 2)"
  by (simp add: rbpf_kalman_filter_def demo_defs engine_defs)

lemma demo_kalman_second_R2:
  "rbpf_kalman_filter 2 demo_kalman demo_y []
       (demo_state 1 2 (Finite 0) [Finite 2, Finite 2] 0 [] 2)
     = Inr (demo_state 2 2 (Finite 0) [Finite (- ln 2), Finite (- ln 2)] 1 [] 4)"
  by (simp add: rbpf_kalman_filter_def demo_defs engine_defs)

lemma demo_resampler_counts:
  "fst (resampLogWts demo_hmm r a b c) = Suc r" "fst (resampLogWts demo_kalman r a b c) = Suc r"
  by (simp_all add: demo_hmm_def demo_kalman_def demo_resampler_def)

lemma demo_hmm_zero_period:
  "rbpf_hmm_filter 2 demo_hmm demo_y [] (demo_hmm_fresh 0) = Inl ModuloByZero"
  by (simp add: rbpf_hmm_filter_def demo_defs engine_defs)

lemma demo_kalman_zero_period:
  "rbpf_kalman_filter 2 demo_kalman demo_y [] (demo_kalman_fresh 0) = Inl ModuloByZero"
  by (simp add: rbpf_kalman_filter_def demo_defs engine_defs)

lemma demo_hmm_second_moved:
  "rbpf_hmm_filter 2 demo_hmm demo_y [plus_three]
       (demo_state 1 5 (Finite 2) [Finite 2, Finite 2] 0 [[]] 2)
     = Inr (demo_state 2 5 (Finite 0) [Finite 2, Finite 2] 0 [[[Finite 3]]] 4)"
  by (simp add: rbpf_hmm_filter_def demo_defs engine_defs)

lemma demo_kalman_second_moved:
  "rbpf_kalman_filter 2 demo_kalman demo_y [plus_three]
       (demo_state 1 5 (Finite 0) [Finite 2, Finite 2] 0 [[]] 2)
     = Inr (demo_state 2 5 (Finite 0) [Finite 7, Finite 7] 0 [[[Finite 3]]] 4)"
  by (simp add: rbpf_kalman_filter_def demo_defs engine_defs)

lemma demo_kalman_increment:
  "kalman_increment 2 demo_kalman demo_y (demo_kalman_fresh 5) = Inr (Finite 2)"
  "kalman_increment 2 demo_kalman demo_y
       (demo_state 1 5 l [Finite 2, Finite 2] 0 exps 2) = Inr (Finite 5)"
  by (simp_all add: kalman_increment_def demo_defs engine_defs)

lemma demo_state_sel:
  "m_now (demo_state now R l ws r exps u) = now"
  "m_rs (demo_state now R l ws r exps u) = R"
  "m_logUnNormWeights (demo_state now R l ws r exps u) = ws"
  "m_resampler (demo_state now R l ws r exps u) = r"
  "getLogCondLike (demo_state now R l ws r exps u) = l"
  "getExpectations (demo_state now R l ws r exps u) = exps"
  by (simp_all add: demo_state_def getLogCondLike_def getExpectations_def)

lemma logsumexp_pair: "logsumexp [Finite a, Finite a] = Finite (a + ln 2)"
  by (simp add: logsumexp_def spec_max_def dsub_def)



lemma demo_fresh_sel:
  "m_now (demo_hmm_fresh R) = 0" "m_rs (demo_hmm_fresh R) = R"
  "m_resampler (demo_hmm_fresh R) = 0"
  "m_now (demo_kalman_fresh R) = 0" "m_rs (demo_kalman_fresh R) = R"
  "m_resampler (demo_kalman_fresh R) = 0"
  by (simp_all add: demo_hmm_fresh_def demo_kalman_fresh_def rbpf_hmm_ctor_def
      rbpf_kalman_ctor_def)

lemma fresh_sized:
  "arrays_sized nparts (rbpf_hmm_ctor nparts i0 x0 w0 r0 u0 R)"
  "arrays_sized nparts (rbpf_kalman_ctor nparts i0 x0 w0 r0 u0 R)"
  by (simp_all add: arrays_sized_def rbpf_hmm_ctor_def rbpf_kalman_ctor_def)

lemma demo_hmm_zero_period_wide:
  "rbpf_hmm_filter 2 demo_hmm demo_y [wide] (demo_hmm_fresh 0) = Inl ShapeMismatch"
  by (simp add: rbpf_hmm_filter_def demo_defs engine_defs wide_def)

lemma demo_kalman_zero_period_wide:
  "rbpf_kalman_filter 2 demo_kalman demo_y [wide] (demo_kalman_fresh 0) = Inl ShapeMismatch"
  by (simp add: rbpf_kalman_filter_def demo_defs engine_defs wide_def)





lemma demo_hmm_wrap:
  "rbpf_hmm_filter 2 demo_hmm demo_y []
       (demo_state 4294967295 5 (Finite 0) [Finite (- ln 2), Finite (- ln 2)] 858993459 []
          8589934590)
     = Inr (demo_state 0 5 (Finite 0) [Finite (- ln 2), Finite (- ln 2)] 858993460 []
          8589934592)"
  by (simp add: rbpf_hmm_filter_def demo_defs engine_defs)

lemma demo_kalman_wrap:
  "rbpf_kalman_filter 2 demo_kalman demo_y []
       (demo_state 4294967295 5 (Finite 0) [Finite (- ln 2), Finite (- ln 2)] 858993459 []
          8589934590)
     = Inr (demo_state 0 5 (Finite 0) [Finite (- ln 2), Finite (- ln 2)] 858993460 []
          8589934592)"
  by (simp add: rbpf_kalman_filter_def demo_defs engine_defs)

lemmas uneven_defs = uneven_hmm_def uneven_kalman_def uneven_state_def the_sample_def

lemma uneven_state_sel:
  "m_now (uneven_state now R l ws r exps u) = now"
  "m_rs (uneven_state now R l ws r exps u) = R"
  "m_logUnNormWeights (uneven_state now R l ws r exps u) = ws"
  "m_p_samps (uneven_state now R l ws r exps u) = [[Finite 1], [Finite 4]]"
  "m_p_innerMods (uneven_state now R l ws r exps u)
     = [(Finite 2, [Finite 1]), (Finite 2, [Finite 1])]"
  "m_resampler (uneven_state now R l ws r exps u) = r"
  "getLogCondLike (uneven_state now R l ws r exps u) = l"
  "getExpectations (uneven_state now R l ws r exps u) = exps"
  "arrays_sized 2 (uneven_state now R l [w0, w1] r exps u)"
  by (simp_all add: uneven_state_def getLogCondLike_def getExpectations_def arrays_sized_def)

lemma uneven_resampler_counts:
  "fst (resampLogWts uneven_hmm r a b c) = Suc r"
  "fst (resampLogWts uneven_kalman r a b c) = Suc r"
  by (simp_all add: uneven_hmm_def uneven_kalman_def demo_hmm_def demo_kalman_def
      demo_resampler_def)

lemma uneven_hmm_first_R1:
  "rbpf_hmm_filter 2 uneven_hmm demo_y [the_sample] (demo_hmm_fresh 1)
     = Inr (uneven_state 1 1 (Finite (2 + ln (3 / 2))) [Finite (- ln 2), Finite (- ln 2)] 1
              [[[Finite 3]]] 2)"
  by (simp add: rbpf_hmm_filter_def uneven_defs demo_defs engine_defs exp_minus)

lemma uneven_kalman_first_R1:
  "rbpf_kalman_filter 2 uneven_kalman demo_y [the_sample] (demo_kalman_fresh 1)
     = Inr (uneven_state 1 1 (Finite 0) [Finite (- ln 2), Finite (- ln 2)] 1
              [[[Finite 3]]] 2)"
  by (simp add: rbpf_kalman_filter_def uneven_defs demo_defs engine_defs exp_minus)

lemma uneven_hmm_first_R1_phase:
  "hmm_weights_phase 2 uneven_hmm demo_y [the_sample] (demo_hmm_fresh 1)
     = Inr (uneven_state 0 1 (Finite (2 + ln (3 / 2))) [Finite 2, Finite (2 + ln 2)] 0 [[]] 2)"
  by (simp add: hmm_weights_phase_def uneven_defs demo_defs engine_defs exp_minus)

lemma uneven_kalman_first_R1_phase:
  "kalman_weights_phase 2 uneven_kalman demo_y [the_sample] (demo_kalman_fresh 1)
     = Inr (uneven_state 0 1 (Finite 0) [Finite 2, Finite (2 + ln 2)] 0 [[]] 2)"
  by (simp add: kalman_weights_phase_def uneven_defs demo_defs engine_defs exp_minus)

lemma uneven_hmm_second_R1:
  "rbpf_hmm_filter 2 uneven_hmm demo_y [the_sample]
       (uneven_state 1 1 (Finite (2 + ln (3 / 2))) [Finite (- ln 2), Finite (- ln 2)] 1
              [[[Finite 3]]] 2)
     = Inr (uneven_state 2 1 (Finite 0) [Finite (- ln 2), Finite (- ln 2)] 2
              [[[Finite (5 / 2)]]] 4)"
  by (simp add: rbpf_hmm_filter_def uneven_defs demo_defs engine_defs exp_minus)

lemma uneven_kalman_second_R1:
  "rbpf_kalman_filter 2 uneven_kalman demo_y [the_sample]
       (uneven_state 1 1 (Finite 0) [Finite (- ln 2), Finite (- ln 2)] 1 [[[Finite 3]]] 2)
     = Inr (uneven_state 2 1 (Finite 0) [Finite (- ln 2), Finite (- ln 2)] 2
              [[[Finite (5 / 2)]]] 4)"
  by (simp add: rbpf_kalman_filter_def uneven_defs demo_defs engine_defs exp_minus)






lemma uneven_maximum:
  "is_maximum_of m [Finite 2, Finite (2 + ln 2)] \<Longrightarrow> m = Finite (2 + ln 2)"
  "is_running_maximum_of m [Finite 2, Finite (2 + ln 2)] \<Longrightarrow> m = Finite (2 + ln 2)"
  by (auto simp: is_maximum_of_def is_running_maximum_of_def neg_infinity_eq)



section \<open>The weight update of the later steps\<close>

text \<open>
  C1.  The specification updates every log-weight of a later step by addition:
  \<open>logw[i] + inner[i].lastLogCondLike + log_f - log_q\<close>, in both engines.  Neither engine
  does.  On the second observation of the demo every particle has log-weight 2, inner
  log conditional likelihood 2, \<open>log_f = 3\<close> and \<open>log_q = 1\<close>, so the sum is 6.  The HMM
  engine computes the increment and drops it: the weights stay at 2.  The Kalman engine
  multiplies the likelihood by \<open>log_f\<close>: the weights become \<open>2 + 2 * 3 - 1 = 7\<close>.
\<close>

theorem later_step_weights_not_additive:
  "map_sum id m_logUnNormWeights
       (hmm_run 2 demo_hmm [(demo_y, []), (demo_y, [])] (demo_hmm_fresh 5))
     = Inr [Finite 2, Finite 2]
   \<and> map_sum id m_logUnNormWeights
       (kalman_run 2 demo_kalman [(demo_y, []), (demo_y, [])] (demo_kalman_fresh 5))
     = Inr [Finite 7, Finite 7]
   \<and> map_sum id m_logUnNormWeights
       (kalman_run 2 demo_kalman [(demo_y, [])] (demo_kalman_fresh 5))
     = Inr [Finite 2, Finite 2]
   \<and> spec_weight_update (Finite 2) (Finite 2) (Finite 3) (Finite 1) = Finite 6"
  by (simp add: hmm_run_def kalman_run_def demo_hmm_first demo_hmm_second demo_kalman_first
      demo_kalman_second demo_state_sel spec_weight_update_def dsub_def)


section \<open>The log-likelihood the engines give out\<close>

text \<open>
  C2.  After a later step \<^verbatim>\<open>getLogCondLike\<close> should return the increment
  \<open>logsumexp(logw after) - logsumexp(logw before)\<close>.  The Kalman engine computes that
  value (5 on the second observation of the demo, where the weights go from 2 to 7) and
  assigns it to a name that is not the member; \<^verbatim>\<open>getLogCondLike\<close> still returns the
  0 of the constructor.  The HMM engine stores what it computes.
\<close>

theorem kalman_later_loglike_not_stored:
  "map_sum id getLogCondLike
       (kalman_run 2 demo_kalman [(demo_y, []), (demo_y, [])] (demo_kalman_fresh 5))
     = Inr (Finite 0)
   \<and> kalman_run 2 demo_kalman [(demo_y, [])] (demo_kalman_fresh 5)
     = Inr (demo_state 1 5 (Finite 0) [Finite 2, Finite 2] 0 [] 2)
   \<and> map_sum id m_logUnNormWeights
       (kalman_run 2 demo_kalman [(demo_y, []), (demo_y, [])] (demo_kalman_fresh 5))
     = Inr [Finite 7, Finite 7]
   \<and> dsub (logsumexp [Finite 7, Finite 7]) (logsumexp [Finite 2, Finite 2]) = Finite 5
   \<and> kalman_increment 2 demo_kalman demo_y
       (demo_state 1 5 (Finite 0) [Finite 2, Finite 2] 0 [] 2) = Inr (Finite 5)
   \<and> map_sum id getLogCondLike
       (hmm_run 2 demo_hmm [(demo_y, []), (demo_y, [])] (demo_hmm_fresh 5))
     = Inr (dsub (logsumexp [Finite 2, Finite 2]) (logsumexp [Finite 2, Finite 2]))"
  by (simp add: hmm_run_def kalman_run_def demo_hmm_first demo_hmm_second demo_kalman_first
      demo_kalman_second demo_state_sel logsumexp_pair dsub_def demo_kalman_increment)

text \<open>
  C3.  On the first step both engines set every log-weight to
  \<open>lastLogCondLike + log_mu - log_q1\<close> (2 in the demo) and compute
  \<open>logsumexp(logw) - log N\<close> (2 again).  The HMM engine stores it.  The Kalman engine
  assigns it to \<^verbatim>\<open>m_logLastCondLike\<close>, which is not the member
  \<^verbatim>\<open>m_lastLogCondLike\<close>: \<^verbatim>\<open>getLogCondLike\<close> returns 0.
\<close>

theorem kalman_first_loglike_not_stored:
  "map_sum id m_logUnNormWeights
       (rbpf_kalman_filter 2 demo_kalman demo_y [] (demo_kalman_fresh 5))
     = Inr [Finite 2, Finite 2]
   \<and> spec_first_weight (Finite 2) (Finite 0) (Finite 0) = Finite 2
   \<and> dsub (logsumexp [Finite 2, Finite 2]) (dlog (Finite (real 2))) = Finite 2
   \<and> kalman_increment 2 demo_kalman demo_y (demo_kalman_fresh 5) = Inr (Finite 2)
   \<and> map_sum id getLogCondLike
       (rbpf_kalman_filter 2 demo_kalman demo_y [] (demo_kalman_fresh 5))
     = Inr (Finite 0)
   \<and> map_sum id getLogCondLike
       (rbpf_hmm_filter 2 demo_hmm demo_y [] (demo_hmm_fresh 5))
     = Inr (Finite 2)"
  by (simp add: demo_hmm_first demo_kalman_first demo_state_sel
      logsumexp_pair dsub_def spec_first_weight_def demo_kalman_increment)


section \<open>The expectations\<close>

text \<open>
  C4.  The cached expectation should be the weighted average
  \<open>\<Sigma> h\<^sub>i exp(logw[i] - m) / \<Sigma> exp(logw[i] - m)\<close>.  For the functional that is
  constantly \<open>-1\<close> the average is \<open>-1\<close>; both engines take the logarithm of the output
  first and cache NaN.
\<close>

theorem expectation_of_negative_functional:
  "map_sum id getExpectations
       (rbpf_hmm_filter 2 demo_hmm demo_y [minus_one] (demo_hmm_fresh 5))
     = Inr [[[NaN]]]
   \<and> map_sum id getExpectations
       (rbpf_kalman_filter 2 demo_kalman demo_y [minus_one] (demo_kalman_fresh 5))
     = Inr [[[NaN]]]
   \<and> spec_expectation 2 snd minus_one
        [(Finite 2, [Finite 1]), (Finite 2, [Finite 1])] [[Finite 0], [Finite 0]]
        [Finite 2, Finite 2] (Finite 2)
     = [[Finite (- 1)]]"
proof -
  have "spec_expectation 2 snd minus_one
        [(Finite 2, [Finite 1]), (Finite 2, [Finite 1])] [[Finite 0], [Finite 0]]
        [Finite 2, Finite 2] (Finite 2)
     = [[Finite (- 1)]]"
    by (simp add: spec_expectation_def minus_one_def dsub_def upt_two mat_Zero_def
        mat_add_def mat_scale_def mat_div_def)
  then show ?thesis
    by (simp add: demo_hmm_minus_one demo_kalman_minus_one demo_state_sel)
qed


section \<open>The structure of a call\<close>

subsection \<open>What the loops over the particles leave alone\<close>

lemma particles_only_refl: "particles_only s s"
  by (simp add: particles_only_def)

lemma particles_only_trans:
  "particles_only s s' \<Longrightarrow> particles_only s' s'' \<Longrightarrow> particles_only s s''"
  by (simp add: particles_only_def)

lemma fold_particles_only:
  assumes "\<And>x a. particles_only (fst a) (fst (f x a))"
  shows "particles_only (fst a) (fst (fold f xs a))"
proof (induction xs arbitrary: a)
  case Nil
  show ?case by (simp add: particles_only_refl)
next
  case (Cons x xs)
  have "particles_only (fst a) (fst (f x a))" by (rule assms)
  moreover have "particles_only (fst (f x a)) (fst (fold f xs (f x a)))" by (rule Cons.IH)
  ultimately show ?case by (simp add: particles_only_trans)
qed

lemma hmm_init_particle_only: "particles_only (fst a) (fst (hmm_init_particle M data ii a))"
  by (cases a) (simp add: hmm_init_particle_def particles_only_def Let_def split: prod.splits)

lemma hmm_update_particle_only:
  "particles_only (fst a) (fst (hmm_update_particle M data m2 ii a))"
  by (cases a) (simp add: hmm_update_particle_def particles_only_def Let_def split: prod.splits)

lemma kalman_init_particle_only:
  "particles_only (fst a) (fst (kalman_init_particle M data ii a))"
  by (cases a) (simp add: kalman_init_particle_def particles_only_def Let_def split: prod.splits)

lemma kalman_update_particle_only:
  "particles_only (fst a) (fst (kalman_update_particle M data m2 ii a))"
  by (cases a) (simp add: kalman_update_particle_def particles_only_def Let_def split: prod.splits)

lemma hmm_init_loop_only:
  "fold (hmm_init_particle M data) xs (s, m) = (s1, m') \<Longrightarrow> particles_only s s1"
  using fold_particles_only [of "hmm_init_particle M data" "(s, m)" xs, OF hmm_init_particle_only]
  by simp

lemma hmm_update_loop_only:
  "fold (hmm_update_particle M data m2) xs (s, a) = (s1, a') \<Longrightarrow> particles_only s s1"
  using fold_particles_only [of "hmm_update_particle M data m2" "(s, a)" xs,
      OF hmm_update_particle_only]
  by simp

lemma kalman_init_loop_only:
  "fold (kalman_init_particle M data) xs (s, m) = (s1, m') \<Longrightarrow> particles_only s s1"
  using fold_particles_only [of "kalman_init_particle M data" "(s, m)" xs,
      OF kalman_init_particle_only]
  by simp

lemma kalman_update_loop_only:
  "fold (kalman_update_particle M data m2) xs (s, a) = (s1, a') \<Longrightarrow> particles_only s s1"
  using fold_particles_only [of "kalman_update_particle M data m2" "(s, a)" xs,
      OF kalman_update_particle_only]
  by simp

subsection \<open>The phases of a call\<close>

lemma hmm_filter_phases:
  "rbpf_hmm_filter nparts M data fs s
     = after_weights nparts M fs (hmm_weights_phase nparts M data fs s)"
proof (cases "m_now s = 0")
  case True
  obtain s1 m where "fold (hmm_init_particle M data) [0..<nparts] (s, neg_infinity) = (s1, m)"
    by (cases "fold (hmm_init_particle M data) [0..<nparts] (s, neg_infinity)")
  with True show ?thesis
    by (simp add: rbpf_hmm_filter_def hmm_weights_phase_def after_weights_def Let_def)
next
  case False
  show ?thesis
  proof (cases "max_element (m_logUnNormWeights s)")
    case (Inl e)
    with False show ?thesis
      by (simp add: rbpf_hmm_filter_def hmm_weights_phase_def after_weights_def)
  next
    case (Inr m2)
    obtain s1 sd m1 where
      "fold (hmm_update_particle M data m2) [0..<nparts] (s, Finite 0, neg_infinity)
         = (s1, sd, m1)"
      by (cases "fold (hmm_update_particle M data m2) [0..<nparts] (s, Finite 0, neg_infinity)")
    with False Inr show ?thesis
      by (simp add: rbpf_hmm_filter_def hmm_weights_phase_def after_weights_def Let_def)
  qed
qed

lemma kalman_filter_phases:
  "rbpf_kalman_filter nparts M data fs s
     = after_weights nparts M fs (kalman_weights_phase nparts M data fs s)"
proof (cases "m_now s = 0")
  case True
  obtain s1 m where
    "fold (kalman_init_particle M data) [0..<nparts] (s, neg_infinity) = (s1, m)"
    by (cases "fold (kalman_init_particle M data) [0..<nparts] (s, neg_infinity)")
  with True show ?thesis
    by (simp add: rbpf_kalman_filter_def kalman_weights_phase_def after_weights_def Let_def)
next
  case False
  show ?thesis
  proof (cases "max_element (m_logUnNormWeights s)")
    case (Inl e)
    with False show ?thesis
      by (simp add: rbpf_kalman_filter_def kalman_weights_phase_def after_weights_def)
  next
    case (Inr m2)
    obtain s1 sd m1 where
      "fold (kalman_update_particle M data m2) [0..<nparts] (s, Finite 0, neg_infinity)
         = (s1, sd, m1)"
      by (cases "fold (kalman_update_particle M data m2) [0..<nparts]
                   (s, Finite 0, neg_infinity)")
    with False Inr show ?thesis
      by (simp add: rbpf_kalman_filter_def kalman_weights_phase_def after_weights_def Let_def)
  qed
qed

lemma max_element_fault: "max_element ws = Inl e \<Longrightarrow> e = EmptyRangeDeref \<and> ws = []"
  by (auto simp: max_element_def split: list.splits)

lemma hmm_weights_phase_ok: "phase_ok fs s (hmm_weights_phase nparts M data fs s)"
  by (auto simp: phase_ok_def hmm_weights_phase_def particles_only_def
      split: if_splits prod.splits sum.splits
      dest!: hmm_init_loop_only hmm_update_loop_only max_element_fault)

lemma kalman_weights_phase_ok: "phase_ok fs s (kalman_weights_phase nparts M data fs s)"
  by (auto simp: phase_ok_def kalman_weights_phase_def particles_only_def
      split: if_splits prod.splits sum.splits
      dest!: kalman_init_loop_only kalman_update_loop_only max_element_fault)

lemma kalman_weights_phase_loglike:
  "kalman_weights_phase nparts M data fs s = Inr q \<Longrightarrow>
   m_lastLogCondLike q = m_lastLogCondLike s"
  by (auto simp: kalman_weights_phase_def particles_only_def
      split: if_splits prod.splits sum.splits
      dest!: kalman_init_loop_only kalman_update_loop_only)

subsection \<open>The expectation block\<close>

lemma expect_loop_fault:
  "fold (expect_particle gfv h mods samps ws m d ones) xs acc = Inl e \<Longrightarrow>
   acc = Inl e \<or> e = ShapeMismatch"
proof (induction xs arbitrary: acc)
  case Nil
  then show ?case by simp
next
  case (Cons x xs)
  from Cons.IH[of "expect_particle gfv h mods samps ws m d ones x acc"] Cons.prems
  have "expect_particle gfv h mods samps ws m d ones x acc = Inl e \<or> e = ShapeMismatch"
    by simp
  then show ?case
    by (auto simp: expect_particle_def Let_def split: sum.splits prod.splits if_splits)
qed

lemma expectation_fault: "expectation n gfv h mods samps ws m = Inl e \<Longrightarrow> e = ShapeMismatch"
  by (auto simp: expectation_def Let_def split: sum.splits prod.splits dest: expect_loop_fault)

lemma calc_expectations_length:
  "calc_expectations n gfv mods samps ws m fs fId exps = Inr exps' \<Longrightarrow> length exps' = length exps"
  by (induction fs arbitrary: fId exps) (auto split: sum.splits if_splits)

lemma calc_expectations_in_bounds:
  "calc_expectations n gfv mods samps ws m fs fId exps = Inl e \<Longrightarrow>
   fId + length fs \<le> length exps \<Longrightarrow> e = ShapeMismatch"
proof (induction fs arbitrary: fId exps)
  case Nil
  then show ?case by simp
next
  case (Cons h fs)
  show ?case
  proof (cases "expectation n gfv h mods samps ws m")
    case (Inl e')
    with Cons.prems show ?thesis by (auto dest: expectation_fault)
  next
    case (Inr v)
    have "Suc fId + length fs \<le> length (exps[fId := v])" using Cons.prems by simp
    moreover have "calc_expectations n gfv mods samps ws m fs (Suc fId) (exps[fId := v]) = Inl e"
      using Cons.prems Inr by simp
    ultimately show ?thesis using Cons.IH by blast
  qed
qed

lemma expectations_block_in_bounds:
  assumes "expectations_block n M fs s = Inl e"
    and "length fs \<le> length (m_expectations s)"
  shows "e = EmptyRangeDeref \<or> e = ShapeMismatch"
proof (cases "max_element (m_logUnNormWeights s)")
  case (Inl e')
  with assms show ?thesis by (auto simp: expectations_block_def dest: max_element_fault)
next
  case (Inr m)
  with assms(1) have "calc_expectations n (getFilterVec M) (m_p_innerMods s) (m_p_samps s)
          (m_logUnNormWeights s) m fs 0 (m_expectations s) = Inl e"
    by (simp add: expectations_block_def split: sum.splits)
  then have "e = ShapeMismatch"
    by (rule calc_expectations_in_bounds) (simp add: assms)
  then show ?thesis by simp
qed

lemma expectations_block_frame:
  assumes "expectations_block n M fs s = Inr p"
  shows "\<exists>exps. p = s\<lparr>m_expectations := exps\<rparr> \<and> length exps = length (m_expectations s)"
  using assms
  by (auto simp: expectations_block_def split: sum.splits dest: calc_expectations_length)

lemma resample_frame:
  "m_now (resample M s) = m_now s" "m_rs (resample M s) = m_rs s"
  "m_expectations (resample M s) = m_expectations s"
  "m_lastLogCondLike (resample M s) = m_lastLogCondLike s"
  by (simp_all add: resample_def split: prod.splits)

lemma resample_and_advance_Inr:
  assumes "resample_and_advance M p = Inr s'"
  shows "m_rs p \<noteq> 0"
    and "s' = (if (m_now p + 1) mod m_rs p = 0 then resample M p else p)\<lparr>m_now := m_now p + 1\<rparr>"
  using assms
  by (auto simp: resample_and_advance_def Let_def resample_frame split: if_splits)

lemma resample_and_advance_Inl:
  "resample_and_advance M p = Inl e \<Longrightarrow> e = ModuloByZero \<and> m_rs p = 0"
  by (auto simp: resample_and_advance_def Let_def split: if_splits)


lemma after_weights_Inr:
  assumes "after_weights nparts M fs r = Inr s'"
  obtains q p exps where "r = Inr q" and "expectations_block nparts M fs q = Inr p"
    and "p = q\<lparr>m_expectations := exps\<rparr>" and "length exps = length (m_expectations q)"
    and "m_rs q \<noteq> 0"
    and "s' = (if (m_now q + 1) mod m_rs q = 0 then resample M p else p)
                \<lparr>m_now := m_now q + 1\<rparr>"
proof -
  from assms obtain q p where 1: "r = Inr q" and 2: "expectations_block nparts M fs q = Inr p"
    and 3: "resample_and_advance M p = Inr s'"
    by (auto simp: after_weights_def split: sum.splits)
  from expectations_block_frame[OF 2] obtain exps where
    p: "p = q\<lparr>m_expectations := exps\<rparr>" "length exps = length (m_expectations q)"
    by blast
  from resample_and_advance_Inr[OF 3] p
  have "m_rs q \<noteq> 0"
    and "s' = (if (m_now q + 1) mod m_rs q = 0 then resample M p else p)
                \<lparr>m_now := m_now q + 1\<rparr>"
    by simp_all
  with 1 2 p show thesis by (rule that)
qed

lemma after_weights_Inl:
  assumes "after_weights nparts M fs r = Inl e"
  shows "r = Inl e
     \<or> (\<exists>q. r = Inr q \<and> expectations_block nparts M fs q = Inl e)
     \<or> (\<exists>q p. r = Inr q \<and> expectations_block nparts M fs q = Inr p \<and> m_rs q = 0
          \<and> e = ModuloByZero)"
proof (cases r)
  case (Inl e')
  with assms show ?thesis by (simp add: after_weights_def)
next
  case (Inr q)
  show ?thesis
  proof (cases "expectations_block nparts M fs q")
    case (Inl e')
    with assms Inr show ?thesis by (simp add: after_weights_def)
  next
    case Inr2: (Inr p)
    from expectations_block_frame[OF Inr2] have "m_rs p = m_rs q" by auto
    with assms Inr Inr2 show ?thesis
      by (auto simp: after_weights_def dest: resample_and_advance_Inl)
  qed
qed

lemma after_weights_expectations:
  assumes ok: "phase_ok fs s r"
    and inv: "m_now s \<noteq> 0 \<longrightarrow> length (m_expectations s) = length fs"
  shows "after_weights nparts M fs r \<noteq> Inl VectorIndexOutOfRange"
    and "after_weights nparts M fs r = Inr s' \<Longrightarrow>
           length (m_expectations s') = length fs \<and> m_now s' = m_now s + 1 \<and> m_rs s' = m_rs s"
proof -
  have q: "length (m_expectations q) = length fs \<and> m_now q = m_now s \<and> m_rs q = m_rs s"
    if "r = Inr q" for q
    using ok inv that by (auto simp: phase_ok_def resize_vec_def)
  show "after_weights nparts M fs r \<noteq> Inl VectorIndexOutOfRange"
  proof
    assume "after_weights nparts M fs r = Inl VectorIndexOutOfRange"
    from after_weights_Inl[OF this] show False
    proof (elim disjE exE conjE)
      assume "r = Inl VectorIndexOutOfRange"
      with ok show False by (simp add: phase_ok_def)
    next
      fix q assume "r = Inr q" and "expectations_block nparts M fs q = Inl VectorIndexOutOfRange"
      with expectations_block_in_bounds[of nparts M fs q VectorIndexOutOfRange] q
      show False by simp
    next
      assume "VectorIndexOutOfRange = ModuloByZero"
      then show False by simp
    qed
  qed
  show "length (m_expectations s') = length fs \<and> m_now s' = m_now s + 1 \<and> m_rs s' = m_rs s"
    if "after_weights nparts M fs r = Inr s'"
    using that
  proof (rule after_weights_Inr)
    fix q' p exps
    assume "r = Inr q'" "p = q'\<lparr>m_expectations := exps\<rparr>"
      "length exps = length (m_expectations q')"
      "s' = (if (m_now q' + 1) mod m_rs q' = 0 then resample M p else p)
              \<lparr>m_now := m_now q' + 1\<rparr>"
    with q[of q'] show ?thesis by (simp add: resample_frame)
  qed
qed

lemma run_calls_never:
  assumes step: "\<And>data fs s. (data, fs) \<in> set calls \<Longrightarrow> I s \<Longrightarrow>
              f data fs s \<noteq> Inl e \<and> (\<forall>s'. f data fs s = Inr s' \<longrightarrow> I s')"
    and "I s"
  shows "run_calls f calls s \<noteq> Inl e \<and> (\<forall>s'. run_calls f calls s = Inr s' \<longrightarrow> I s')"
  using assms
proof (induction calls arbitrary: s)
  case Nil
  then show ?case by simp
next
  case (Cons call calls)
  obtain data fs where call: "call = (data, fs)" by (cases call)
  have st: "f data fs s \<noteq> Inl e \<and> (\<forall>s'. f data fs s = Inr s' \<longrightarrow> I s')"
    using Cons.prems(1)[of data fs s] Cons.prems(2) call by simp
  show ?case
  proof (cases "f data fs s")
    case (Inl e')
    with st call show ?thesis by simp
  next
    case (Inr s1)
    with st have "I s1" by simp
    have "run_calls f calls s1 \<noteq> Inl e \<and> (\<forall>s'. run_calls f calls s1 = Inr s' \<longrightarrow> I s')"
    proof (rule Cons.IH)
      fix data' fs' s'
      assume "(data', fs') \<in> set calls" and "I s'"
      then show "f data' fs' s' \<noteq> Inl e \<and> (\<forall>s''. f data' fs' s' = Inr s'' \<longrightarrow> I s'')"
        using Cons.prems(1)[of data' fs' s'] by simp
    next
      show "I s1" by fact
    qed
    with Inr call show ?thesis by simp
  qed
qed

lemma hmm_filter_expectations:
  assumes "m_now s \<noteq> 0 \<longrightarrow> length (m_expectations s) = length fs"
  shows "rbpf_hmm_filter nparts M data fs s \<noteq> Inl VectorIndexOutOfRange"
    and "rbpf_hmm_filter nparts M data fs s = Inr s' \<Longrightarrow>
           length (m_expectations s') = length fs \<and> m_now s' = m_now s + 1 \<and> m_rs s' = m_rs s"
  unfolding hmm_filter_phases
  by (rule after_weights_expectations[OF hmm_weights_phase_ok assms]; assumption)+

lemma kalman_filter_expectations:
  assumes "m_now s \<noteq> 0 \<longrightarrow> length (m_expectations s) = length fs"
  shows "rbpf_kalman_filter nparts M data fs s \<noteq> Inl VectorIndexOutOfRange"
    and "rbpf_kalman_filter nparts M data fs s = Inr s' \<Longrightarrow>
           length (m_expectations s') = length fs \<and> m_now s' = m_now s + 1 \<and> m_rs s' = m_rs s"
  unfolding kalman_filter_phases
  by (rule after_weights_expectations[OF kalman_weights_phase_ok assms]; assumption)+


lemma expectations_block_empty:
  "m_logUnNormWeights q = [] \<Longrightarrow> expectations_block nparts M fs q = Inl EmptyRangeDeref"
  by (simp add: expectations_block_def max_element_def)

lemma after_weights_stops:
  assumes ok: "phase_ok fs s r"
    and bad: "m_rs s = 0 \<or> m_logUnNormWeights s = []"
  shows "\<exists>e. after_weights nparts M fs r = Inl e"
proof (cases "after_weights nparts M fs r")
  case (Inl e)
  then show ?thesis by blast
next
  case (Inr s')
  then show ?thesis
  proof (rule after_weights_Inr)
    fix q p exps
    assume r: "r = Inr q" and e: "expectations_block nparts M fs q = Inr p" and "m_rs q \<noteq> 0"
    from ok r have "m_rs q = m_rs s"
      and "length (m_logUnNormWeights q) = length (m_logUnNormWeights s)"
      by (simp_all add: phase_ok_def)
    with bad \<open>m_rs q \<noteq> 0\<close> have "m_logUnNormWeights q = []" by auto
    with e show ?thesis by (simp add: expectations_block_empty)
  qed
qed

lemma after_weights_step:
  assumes ok: "phase_ok fs s r"
    and ret: "after_weights nparts M fs r = Inr s'"
  shows "m_rs s \<noteq> 0" and "m_logUnNormWeights s \<noteq> []" and "m_rs s' = m_rs s"
    and "m_now s' = m_now s + 1"
    and "\<exists>q p. r = Inr q \<and> expectations_block nparts M fs q = Inr p
          \<and> s' = (if (m_now s + 1) mod m_rs s = 0 then resample M p else p)
                   \<lparr>m_now := m_now s + 1\<rparr>
          \<and> m_resampler p = m_resampler s"
proof -
  from after_weights_stops[OF ok, of nparts M] ret
  show "m_rs s \<noteq> 0" and "m_logUnNormWeights s \<noteq> []" by auto
  from ret obtain q p exps where r: "r = Inr q"
    and e: "expectations_block nparts M fs q = Inr p"
    and p: "p = q\<lparr>m_expectations := exps\<rparr>"
    and s': "s' = (if (m_now q + 1) mod m_rs q = 0 then resample M p else p)
                \<lparr>m_now := m_now q + 1\<rparr>"
    by (rule after_weights_Inr)
  from ok r have q: "m_now q = m_now s" "m_rs q = m_rs s" "m_resampler q = m_resampler s"
    by (simp_all add: phase_ok_def)
  from s' p q show "m_rs s' = m_rs s" and "m_now s' = m_now s + 1"
    by (simp_all add: resample_frame)
  from r e s' p q show "\<exists>q p. r = Inr q \<and> expectations_block nparts M fs q = Inr p
          \<and> s' = (if (m_now s + 1) mod m_rs s = 0 then resample M p else p)
                   \<lparr>m_now := m_now s + 1\<rparr>
          \<and> m_resampler p = m_resampler s"
    by simp
qed

lemma after_weights_gate:
  assumes ok: "phase_ok fs s r"
  shows "after_weights nparts M fs r =
     (case r of
        Inl e \<Rightarrow> Inl e
      | Inr q \<Rightarrow>
          (case expectations_block nparts M fs q of
             Inl e \<Rightarrow> Inl e
           | Inr p \<Rightarrow>
               if m_rs s = 0 then Inl ModuloByZero
               else Inr ((if (m_now s + 1) mod m_rs s = 0 then resample M p else p)
                           \<lparr>m_now := m_now s + 1\<rparr>)))"
proof (cases r)
  case (Inl e)
  then show ?thesis by (simp add: after_weights_def)
next
  case (Inr q)
  with ok have q: "m_now q = m_now s" "m_rs q = m_rs s" by (simp_all add: phase_ok_def)
  show ?thesis
  proof (cases "expectations_block nparts M fs q")
    case (Inl e)
    with Inr show ?thesis by (simp add: after_weights_def)
  next
    case Inr2: (Inr p)
    from expectations_block_frame[OF Inr2] q have "m_now p = m_now s" "m_rs p = m_rs s"
      by auto
    with Inr Inr2 show ?thesis
      by (simp add: after_weights_def resample_and_advance_def Let_def resample_frame)
  qed
qed

lemma resample_counts:
  assumes "\<forall>r a b c. fst (resampLogWts M r a b c) = Suc r"
  shows "m_resampler (resample M p) = Suc (m_resampler p)"
proof -
  obtain r mods samps ws where
    x: "resampLogWts M (m_resampler p) (m_p_innerMods p) (m_p_samps p) (m_logUnNormWeights p)
          = (r, mods, samps, ws)"
    by (cases "resampLogWts M (m_resampler p) (m_p_innerMods p) (m_p_samps p)
                 (m_logUnNormWeights p)") auto
  with assms have "r = Suc (m_resampler p)" by (metis fst_conv)
  with x show ?thesis by (simp add: resample_def)
qed

lemma after_weights_counts:
  assumes ok: "phase_ok fs s r"
    and ret: "after_weights nparts M fs r = Inr s'"
    and cnt: "\<forall>r a b c. fst (resampLogWts M r a b c) = Suc r"
  shows "m_resampler s' =
           (if (m_now s + 1) mod m_rs s = 0 then Suc (m_resampler s) else m_resampler s)"
proof -
  from after_weights_step(5)[OF ok ret] obtain q p where
    "s' = (if (m_now s + 1) mod m_rs s = 0 then resample M p else p)\<lparr>m_now := m_now s + 1\<rparr>"
    and "m_resampler p = m_resampler s"
    by blast
  then show ?thesis by (simp add: resample_counts[OF cnt])
qed

lemma unat_succ: "unat (x :: 32 word) + 1 < 2 ^ 32 \<Longrightarrow> unat (x + 1) = Suc (unat x)"
  by (simp add: unat_word_ariths(1))

lemma word_mod_zero_iff: "((x :: 32 word) mod y = 0) = (unat x mod unat y = 0)"
  by (metis unat_eq_zero unat_mod)

lemma run_calls_count:
  assumes step: "\<And>data fs s s'. f data fs s = Inr s' \<Longrightarrow>
             m_rs s' = m_rs s \<and> m_now s' = m_now s + 1
             \<and> m_resampler s' =
                 (if (m_now s + 1) mod m_rs s = 0 then Suc (m_resampler s) else m_resampler s)"
    and "run_calls f calls s = Inr s'"
    and "unat (m_now s) + length calls < 2 ^ 32"
    and "m_resampler s = unat (m_now s) div unat (m_rs s)"
  shows "m_resampler s' = unat (m_now s') div unat (m_rs s')
         \<and> unat (m_now s') = unat (m_now s) + length calls \<and> m_rs s' = m_rs s"
  using assms(2-)
proof (induction calls arbitrary: s)
  case Nil
  then show ?case by simp
next
  case (Cons call calls)
  obtain data fs where call: "call = (data, fs)" by (cases call)
  from Cons.prems(1) call obtain s1 where f: "f data fs s = Inr s1"
    and run: "run_calls f calls s1 = Inr s'"
    by (auto split: sum.splits)
  from step[OF f] have rs: "m_rs s1 = m_rs s" and now: "m_now s1 = m_now s + 1"
    and r: "m_resampler s1 =
              (if (m_now s + 1) mod m_rs s = 0 then Suc (m_resampler s) else m_resampler s)"
    by simp_all
  from Cons.prems(2) have small: "unat (m_now s) + 1 < 2 ^ 32" by simp
  have u: "unat (m_now s1) = Suc (unat (m_now s))"
    using now unat_succ[OF small] by simp
  have "m_resampler s1 = unat (m_now s1) div unat (m_rs s1)"
    using r Cons.prems(3) u rs now
    by (simp add: word_mod_zero_iff div_Suc del: Suc_eq_plus1)
  moreover have "unat (m_now s1) + length calls < 2 ^ 32"
    using Cons.prems(2) u by simp
  ultimately have "m_resampler s' = unat (m_now s') div unat (m_rs s')
         \<and> unat (m_now s') = unat (m_now s1) + length calls \<and> m_rs s' = m_rs s1"
    using Cons.IH[OF run] by blast
  with u rs show ?case by simp
qed


section \<open>The vector of expectations\<close>

text \<open>
  C8.  In every sequence of calls from a fresh engine in which every list of functionals
  has the same length \<open>n\<close>, no write \<^verbatim>\<open>m_expectations[fId] = ...\<close> goes past the
  end of the vector, in either engine: the first branch resizes the vector to the length
  of its list, the later branches keep that length and write at the positions
  \<open>0, ..., n - 1\<close>.  After a run the vector has \<open>n\<close> elements (unless the 32-bit
  counter has just wrapped to 0, where the next call resizes again).
\<close>

theorem expectation_writes_in_bounds:
  assumes "list_all (\<lambda>call. length (snd call) = n) calls"
  shows "hmm_run nparts M calls (rbpf_hmm_ctor nparts i0 x0 w0 r0 u0 R)
            \<noteq> Inl VectorIndexOutOfRange
         \<and> kalman_run nparts K calls (rbpf_kalman_ctor nparts i0 x0 w0 r0 u0 R)
            \<noteq> Inl VectorIndexOutOfRange
         \<and> (\<forall>s'. hmm_run nparts M calls (rbpf_hmm_ctor nparts i0 x0 w0 r0 u0 R) = Inr s'
               \<longrightarrow> m_now s' \<noteq> 0 \<longrightarrow> length (getExpectations s') = n)
         \<and> (\<forall>s'. kalman_run nparts K calls (rbpf_kalman_ctor nparts i0 x0 w0 r0 u0 R) = Inr s'
               \<longrightarrow> m_now s' \<noteq> 0 \<longrightarrow> length (getExpectations s') = n)"
proof -
  let ?I = "\<lambda>s. m_now s \<noteq> 0 \<longrightarrow> length (m_expectations s) = n"
  have len: "length fs = n" if "(data, fs) \<in> set calls" for data fs
  proof -
    from assms that have "length (snd (data, fs)) = n"
      unfolding list_all_iff by blast
    then show ?thesis by simp
  qed
  have h: "rbpf_hmm_filter nparts M data fs s \<noteq> Inl VectorIndexOutOfRange
           \<and> (\<forall>s'. rbpf_hmm_filter nparts M data fs s = Inr s' \<longrightarrow> ?I s')"
    if c: "(data, fs) \<in> set calls" and i: "?I s" for data fs s
  proof -
    have a: "m_now s \<noteq> 0 \<longrightarrow> length (m_expectations s) = length fs"
      using i len[OF c] by simp
    have "rbpf_hmm_filter nparts M data fs s \<noteq> Inl VectorIndexOutOfRange"
      by (rule hmm_filter_expectations(1)[OF a])
    moreover have "length (m_expectations s') = n"
      if "rbpf_hmm_filter nparts M data fs s = Inr s'" for s'
      using hmm_filter_expectations(2)[OF a that] len[OF c] by simp
    ultimately show ?thesis by blast
  qed
  have k: "rbpf_kalman_filter nparts K data fs s \<noteq> Inl VectorIndexOutOfRange
           \<and> (\<forall>s'. rbpf_kalman_filter nparts K data fs s = Inr s' \<longrightarrow> ?I s')"
    if c: "(data, fs) \<in> set calls" and i: "?I s" for data fs s
  proof -
    have a: "m_now s \<noteq> 0 \<longrightarrow> length (m_expectations s) = length fs"
      using i len[OF c] by simp
    have "rbpf_kalman_filter nparts K data fs s \<noteq> Inl VectorIndexOutOfRange"
      by (rule kalman_filter_expectations(1)[OF a])
    moreover have "length (m_expectations s') = n"
      if "rbpf_kalman_filter nparts K data fs s = Inr s'" for s'
      using kalman_filter_expectations(2)[OF a that] len[OF c] by simp
    ultimately show ?thesis by blast
  qed
  have i0: "?I (rbpf_hmm_ctor nparts i0 x0 w0 r0 u0 R)"
    and i1: "?I (rbpf_kalman_ctor nparts i0 x0 w0 r0 u0 R)"
    by (simp_all add: rbpf_hmm_ctor_def rbpf_kalman_ctor_def)
  have "run_calls (rbpf_hmm_filter nparts M) calls (rbpf_hmm_ctor nparts i0 x0 w0 r0 u0 R)
          \<noteq> Inl VectorIndexOutOfRange
        \<and> (\<forall>s'. run_calls (rbpf_hmm_filter nparts M) calls
                   (rbpf_hmm_ctor nparts i0 x0 w0 r0 u0 R) = Inr s' \<longrightarrow> ?I s')"
    by (rule run_calls_never[where I="?I", OF h i0])
  moreover
  have "run_calls (rbpf_kalman_filter nparts K) calls (rbpf_kalman_ctor nparts i0 x0 w0 r0 u0 R)
          \<noteq> Inl VectorIndexOutOfRange
        \<and> (\<forall>s'. run_calls (rbpf_kalman_filter nparts K) calls
                   (rbpf_kalman_ctor nparts i0 x0 w0 r0 u0 R) = Inr s' \<longrightarrow> ?I s')"
    by (rule run_calls_never[where I="?I", OF k i1])
  ultimately show ?thesis
    unfolding hmm_run_def kalman_run_def getExpectations_def by blast
qed

theorem expectation_writes_in_bounds_witness:
  "list_all (\<lambda>call. length (snd call) = 1) [(demo_y, [minus_one]), (demo_y, [minus_one])]
   \<and> hmm_run 2 demo_hmm [(demo_y, [minus_one]), (demo_y, [minus_one])]
        (rbpf_hmm_ctor 2 (Finite 0, []) [] (Finite 0) 0 0 5) \<noteq> Inl VectorIndexOutOfRange
   \<and> kalman_run 2 demo_kalman [(demo_y, [minus_one]), (demo_y, [minus_one])]
        (rbpf_kalman_ctor 2 (Finite 0, []) [] (Finite 0) 0 0 5) \<noteq> Inl VectorIndexOutOfRange"
  using expectation_writes_in_bounds [of 1 "[(demo_y, [minus_one]), (demo_y, [minus_one])]"
      2 demo_hmm "(Finite 0, [])" "[]" "Finite 0" 0 0 5 demo_kalman]
  by simp

text \<open>The fault is there to be run into: a list that grows from one call to the next
  writes past the end.\<close>

lemma growing_functional_list_overruns:
  "hmm_run 2 demo_hmm [(demo_y, []), (demo_y, [minus_one])] (demo_hmm_fresh 5)
     = Inl VectorIndexOutOfRange"
  by (simp add: hmm_run_def demo_hmm_first)
    (simp add: rbpf_hmm_filter_def demo_defs engine_defs)


lemma resampling_schedule_parts:
  fixes M :: "('i, 'u, nat) hmm_model" and K :: "('i, 'u, nat) kalman_model"
  assumes cM: "\<forall>r a b c. fst (resampLogWts M r a b c) = Suc r"
    and cK: "\<forall>r a b c. fst (resampLogWts K r a b c) = Suc r"
    and len: "length calls < 2 ^ 32"
  shows "rbpf_hmm_filter nparts M data fs s =
           (case hmm_weights_phase nparts M data fs s of
              Inl e \<Rightarrow> Inl e
            | Inr q \<Rightarrow>
                (case expectations_block nparts M fs q of
                   Inl e \<Rightarrow> Inl e
                 | Inr p \<Rightarrow>
                     if m_rs s = 0 then Inl ModuloByZero
                     else Inr ((if (m_now s + 1) mod m_rs s = 0 then resample M p else p)
                                 \<lparr>m_now := m_now s + 1\<rparr>)))"
    and "rbpf_kalman_filter nparts K data fs t =
           (case kalman_weights_phase nparts K data fs t of
              Inl e \<Rightarrow> Inl e
            | Inr q \<Rightarrow>
                (case expectations_block nparts K fs q of
                   Inl e \<Rightarrow> Inl e
                 | Inr p \<Rightarrow>
                     if m_rs t = 0 then Inl ModuloByZero
                     else Inr ((if (m_now t + 1) mod m_rs t = 0 then resample K p else p)
                                 \<lparr>m_now := m_now t + 1\<rparr>)))"
    and "rbpf_hmm_filter nparts M data fs s = Inr s' \<longrightarrow>
           m_resampler s' =
             (if (m_now s + 1) mod m_rs s = 0 then Suc (m_resampler s) else m_resampler s)"
    and "rbpf_kalman_filter nparts K data fs t = Inr t' \<longrightarrow>
           m_resampler t' =
             (if (m_now t + 1) mod m_rs t = 0 then Suc (m_resampler t) else m_resampler t)"
    and "hmm_run nparts M calls (rbpf_hmm_ctor nparts i0 x0 w0 0 u0 R) = Inr s'' \<longrightarrow>
           m_resampler s'' = length calls div unat R \<and> unat (m_now s'') = length calls"
    and "kalman_run nparts K calls (rbpf_kalman_ctor nparts i0 x0 w0 0 u0 R) = Inr t'' \<longrightarrow>
           m_resampler t'' = length calls div unat R \<and> unat (m_now t'') = length calls"
proof -
  show "rbpf_hmm_filter nparts M data fs s =
           (case hmm_weights_phase nparts M data fs s of
              Inl e \<Rightarrow> Inl e
            | Inr q \<Rightarrow>
                (case expectations_block nparts M fs q of
                   Inl e \<Rightarrow> Inl e
                 | Inr p \<Rightarrow>
                     if m_rs s = 0 then Inl ModuloByZero
                     else Inr ((if (m_now s + 1) mod m_rs s = 0 then resample M p else p)
                                 \<lparr>m_now := m_now s + 1\<rparr>)))"
    unfolding hmm_filter_phases by (rule after_weights_gate[OF hmm_weights_phase_ok])
  show "rbpf_kalman_filter nparts K data fs t =
           (case kalman_weights_phase nparts K data fs t of
              Inl e \<Rightarrow> Inl e
            | Inr q \<Rightarrow>
                (case expectations_block nparts K fs q of
                   Inl e \<Rightarrow> Inl e
                 | Inr p \<Rightarrow>
                     if m_rs t = 0 then Inl ModuloByZero
                     else Inr ((if (m_now t + 1) mod m_rs t = 0 then resample K p else p)
                                 \<lparr>m_now := m_now t + 1\<rparr>)))"
    unfolding kalman_filter_phases by (rule after_weights_gate[OF kalman_weights_phase_ok])
  have hstep: "m_rs b = m_rs a \<and> m_now b = m_now a + 1
             \<and> m_resampler b =
                 (if (m_now a + 1) mod m_rs a = 0 then Suc (m_resampler a) else m_resampler a)"
    if "rbpf_hmm_filter nparts M d g a = Inr b" for d g a b
  proof -
    from that have r: "after_weights nparts M g (hmm_weights_phase nparts M d g a) = Inr b"
      by (simp add: hmm_filter_phases)
    show ?thesis
      using after_weights_step(3,4)[OF hmm_weights_phase_ok r]
        after_weights_counts[OF hmm_weights_phase_ok r cM]
      by simp
  qed
  have kstep: "m_rs b = m_rs a \<and> m_now b = m_now a + 1
             \<and> m_resampler b =
                 (if (m_now a + 1) mod m_rs a = 0 then Suc (m_resampler a) else m_resampler a)"
    if "rbpf_kalman_filter nparts K d g a = Inr b" for d g a b
  proof -
    from that have r: "after_weights nparts K g (kalman_weights_phase nparts K d g a) = Inr b"
      by (simp add: kalman_filter_phases)
    show ?thesis
      using after_weights_step(3,4)[OF kalman_weights_phase_ok r]
        after_weights_counts[OF kalman_weights_phase_ok r cK]
      by simp
  qed
  show "rbpf_hmm_filter nparts M data fs s = Inr s' \<longrightarrow>
           m_resampler s' =
             (if (m_now s + 1) mod m_rs s = 0 then Suc (m_resampler s) else m_resampler s)"
    using hstep by blast
  show "rbpf_kalman_filter nparts K data fs t = Inr t' \<longrightarrow>
           m_resampler t' =
             (if (m_now t + 1) mod m_rs t = 0 then Suc (m_resampler t) else m_resampler t)"
    using kstep by blast
  show "hmm_run nparts M calls (rbpf_hmm_ctor nparts i0 x0 w0 0 u0 R) = Inr s'' \<longrightarrow>
           m_resampler s'' = length calls div unat R \<and> unat (m_now s'') = length calls"
  proof
    let ?s0 = "rbpf_hmm_ctor nparts i0 x0 w0 (0::nat) u0 R"
    assume run: "hmm_run nparts M calls ?s0 = Inr s''"
    have "m_resampler s'' = unat (m_now s'') div unat (m_rs s'')
         \<and> unat (m_now s'') = unat (m_now ?s0) + length calls \<and> m_rs s'' = m_rs ?s0"
    proof (rule run_calls_count[where f="rbpf_hmm_filter nparts M" and calls=calls])
      show "run_calls (rbpf_hmm_filter nparts M) calls ?s0 = Inr s''"
        using run by (simp add: hmm_run_def)
    qed (use hstep len in \<open>simp_all add: rbpf_hmm_ctor_def\<close>)
    then show "m_resampler s'' = length calls div unat R \<and> unat (m_now s'') = length calls"
      by (simp add: rbpf_hmm_ctor_def)
  qed
  show "kalman_run nparts K calls (rbpf_kalman_ctor nparts i0 x0 w0 0 u0 R) = Inr t'' \<longrightarrow>
           m_resampler t'' = length calls div unat R \<and> unat (m_now t'') = length calls"
  proof
    let ?s0 = "rbpf_kalman_ctor nparts i0 x0 w0 (0::nat) u0 R"
    assume run: "kalman_run nparts K calls ?s0 = Inr t''"
    have "m_resampler t'' = unat (m_now t'') div unat (m_rs t'')
         \<and> unat (m_now t'') = unat (m_now ?s0) + length calls \<and> m_rs t'' = m_rs ?s0"
    proof (rule run_calls_count[where f="rbpf_kalman_filter nparts K" and calls=calls])
      show "run_calls (rbpf_kalman_filter nparts K) calls ?s0 = Inr t''"
        using run by (simp add: kalman_run_def)
    qed (use kstep len in \<open>simp_all add: rbpf_kalman_ctor_def\<close>)
    then show "m_resampler t'' = length calls div unat R \<and> unat (m_now t'') = length calls"
      by (simp add: rbpf_kalman_ctor_def)
  qed
qed


section \<open>The expectation loop, entry by entry\<close>

subsection \<open>Matrices given by their entries\<close>














subsection \<open>Sums of doubles\<close>

lemma dsum_0: "dsum 0 t = Finite 0"
  by (simp add: dsum_def)

lemma dsum_Suc: "dsum (Suc n) t = dadd (dsum n t) (t n)"
  by (simp add: dsum_def)





lemma dsum_exp_positive:
  assumes "\<And>i. i < n \<Longrightarrow> is_finite (w i)"
  shows "\<exists>x. dsum n (\<lambda>i. dexp (w i)) = Finite x \<and> 0 \<le> x \<and> (0 < n \<longrightarrow> 0 < x)"
  using assms
proof (induction n)
  case 0
  show ?case by (simp add: dsum_0)
next
  case (Suc n)
  then obtain x where x: "dsum n (\<lambda>i. dexp (w i)) = Finite x" "0 \<le> x" by auto
  from Suc.prems[of n] obtain a where a: "w n = Finite a" by (cases "w n") simp_all
  have "0 < x + exp a" using x(2) exp_gt_zero[of a] by linarith
  with x a show ?case by (simp add: dsum_Suc)
qed

subsection \<open>The two ways to weigh an entry\<close>



subsection \<open>The loop over the particles, entry by entry\<close>






lemma is_finite_dsub: "is_finite a \<Longrightarrow> is_finite b \<Longrightarrow> is_finite (dsub a b)"
  by (cases a; cases b) (simp_all add: dsub_def)

lemma is_finite_weighted: "is_finite w \<Longrightarrow> is_finite x \<Longrightarrow> is_finite (dmul (dexp w) x)"
  by (cases w; cases x) simp_all

lemma is_finite_dexp: "is_finite w \<Longrightarrow> is_finite (dexp w)"
  by (cases w) simp_all

lemma ddiv_NaN_left: "ddiv NaN b = NaN"
  by simp



section \<open>Moving every log-weight by a constant\<close>

subsection \<open>Arithmetic of a shift\<close>









subsection \<open>The loops of the later steps on shifted weights\<close>








subsection \<open>The expectation block on shifted weights\<close>






subsection \<open>The first loop writes every weight\<close>









subsection \<open>A call on shifted weights\<close>





section \<open>What a call computes\<close>

subsection \<open>Maxima and sums\<close>

lemma dlt_trans: "dlt a b \<Longrightarrow> dlt b c \<Longrightarrow> dlt a c"
  by (cases a; cases b; cases c) simp_all

lemma max_element_from_fold:
  "max_element_from l xs = fold (\<lambda>x l. if dlt l x then x else l) xs l"
  by (induction xs arbitrary: l) simp_all

lemma fold_max:
  assumes "fold (\<lambda>x l. if dlt l x then x else l) xs l0 = r"
  shows "(r = l0 \<or> r \<in> set xs) \<and> (\<forall>w\<in>set xs. \<not> dlt r w) \<and> \<not> dlt r l0"
  using assms
proof (induction xs arbitrary: r rule: rev_induct)
  case Nil
  then show ?case by (cases l0) auto
next
  case (snoc x xs)
  let ?p = "fold (\<lambda>x l. if dlt l x then x else l) xs l0"
  from snoc.IH[of ?p] have ih: "(?p = l0 \<or> ?p \<in> set xs)" "\<forall>w\<in>set xs. \<not> dlt ?p w" "\<not> dlt ?p l0"
    by simp_all
  show ?case
  proof (cases "dlt ?p x")
    case True
    with snoc.prems have r: "r = x" by simp
    have "\<not> dlt x w" if "w \<in> set xs" for w
      using ih(2) that True dlt_trans by blast
    moreover have "\<not> dlt x l0" using ih(3) True dlt_trans by blast
    moreover have "\<not> dlt x x" by (cases x) simp_all
    ultimately show ?thesis using r by auto
  next
    case False
    with snoc.prems have r: "r = ?p" by simp
    with ih False show ?thesis by auto
  qed
qed

lemma max_element_is_maximum: "max_element ws = Inr m \<Longrightarrow> is_maximum_of m ws"
proof -
  assume a: "max_element ws = Inr m"
  then obtain x xs where ws: "ws = x # xs" and m: "m = max_element_from x xs"
    by (cases ws) (simp_all add: max_element_def)
  from fold_max[of xs x m] m have "(m = x \<or> m \<in> set xs) \<and> (\<forall>w\<in>set xs. \<not> dlt m w) \<and> \<not> dlt m x"
    by (simp add: max_element_from_fold)
  with ws show ?thesis by (auto simp: is_maximum_of_def list_all_iff)
qed

lemma running_max_indices:
  assumes "length ws = n"
  shows "fold (\<lambda>i m. if dgt (ws ! i) m then ws ! i else m) [0..<n] m0
       = fold (\<lambda>x l. if dlt l x then x else l) ws m0"
proof -
  have "fold (\<lambda>i m. if dgt (ws ! i) m then ws ! i else m) [0..<n] m0
       = fold (\<lambda>x l. if dlt l x then x else l) (map (\<lambda>i. ws ! i) [0..<n]) m0"
    by (simp add: fold_map comp_def dgt_def)
  also have "map (\<lambda>i. ws ! i) [0..<n] = ws" unfolding assms[symmetric] by (rule map_nth)
  finally show ?thesis .
qed

lemma running_max_is_maximum:
  assumes "length ws = n"
  shows "is_running_maximum_of
           (fold (\<lambda>i m. if dgt (ws ! i) m then ws ! i else m) [0..<n] neg_infinity) ws"
  using fold_max[OF refl, of ws neg_infinity]
  by (auto simp: running_max_indices[OF assms] is_running_maximum_of_def list_all_iff)

lemma running_max_spec:
  assumes "length ws = n"
  shows "fold (\<lambda>i m. if dgt (ws ! i) m then ws ! i else m) [0..<n] neg_infinity = spec_max ws"
  by (simp add: running_max_indices[OF assms] spec_max_def neg_infinity_eq)

lemma sum_exp_shifted_dsum: "sum_exp_shifted n ws m = dsum n (\<lambda>i. dexp (dsub (ws ! i) m))"
  by (simp add: sum_exp_shifted_def dsum_def)

lemma fold_pair:
  "fold (\<lambda>i (a, b). (A i a, B i b)) xs (a0, b0) = (fold A xs a0, fold B xs b0)"
  by (induction xs arbitrary: a0 b0) simp_all

lemma dsum_list:
  assumes "length ws = n"
  shows "dsum n (\<lambda>i. f (ws ! i)) = fold (\<lambda>w acc. dadd acc (f w)) ws (Finite 0)"
proof -
  have "dsum n (\<lambda>i. f (ws ! i)) = fold (\<lambda>w acc. dadd acc (f w)) (map (\<lambda>i. ws ! i) [0..<n]) (Finite 0)"
    by (simp add: dsum_def fold_map comp_def)
  also have "map (\<lambda>i. ws ! i) [0..<n] = ws" unfolding assms[symmetric] by (rule map_nth)
  finally show ?thesis .
qed

lemma logsumexp_dsum:
  assumes "length ws = n"
  shows "dadd (spec_max ws) (dlog (dsum n (\<lambda>i. dexp (dsub (ws ! i) (spec_max ws)))))
           = logsumexp ws"
  by (simp add: logsumexp_def Let_def dsum_list[OF assms, where f="\<lambda>w. dexp (dsub w (spec_max ws))"])

subsection \<open>A loop over the particles, particle by particle\<close>

lemma particle_loop:
  fixes f :: "nat \<Rightarrow> ('i, 'u, 'r) rbpf \<times> 'a \<Rightarrow> ('i, 'u, 'r) rbpf \<times> 'a"
  assumes step: "\<And>ii a. ii < N \<Longrightarrow> arrays_sized N (fst a) \<Longrightarrow>
        arrays_sized N (fst (f ii a))
      \<and> (\<forall>j. j \<noteq> ii \<longrightarrow> particle (fst (f ii a)) j = particle (fst a) j)
      \<and> P (particle (fst a) ii) (particle (fst (f ii a)) ii)
      \<and> snd (f ii a) = g (particle (fst a) ii) (particle (fst (f ii a)) ii) (snd a)"
    and n: "n \<le> N" and sized: "arrays_sized N s"
  shows "arrays_sized N (fst (fold f [0..<n] (s, acc)))
      \<and> (\<forall>i<n. P (particle s i) (particle (fst (fold f [0..<n] (s, acc))) i))
      \<and> (\<forall>j. n \<le> j \<longrightarrow> particle (fst (fold f [0..<n] (s, acc))) j = particle s j)
      \<and> snd (fold f [0..<n] (s, acc))
          = fold (\<lambda>i. g (particle s i) (particle (fst (fold f [0..<n] (s, acc))) i)) [0..<n] acc"
  using n
proof (induction n)
  case 0
  show ?case using sized by simp
next
  case (Suc n)
  let ?a = "fold f [0..<n] (s, acc)"
  let ?b = "f n ?a"
  from Suc have ih1: "arrays_sized N (fst ?a)"
    and ih2: "\<forall>i<n. P (particle s i) (particle (fst ?a) i)"
    and ih3: "\<forall>j. n \<le> j \<longrightarrow> particle (fst ?a) j = particle s j"
    and ih4: "snd ?a = fold (\<lambda>i. g (particle s i) (particle (fst ?a) i)) [0..<n] acc"
    by simp_all
  from Suc.prems have nN: "n < N" by simp
  from step[OF nN ih1] have s1: "arrays_sized N (fst ?b)"
    and s2: "\<forall>j. j \<noteq> n \<longrightarrow> particle (fst ?b) j = particle (fst ?a) j"
    and s3: "P (particle (fst ?a) n) (particle (fst ?b) n)"
    and s4: "snd ?b = g (particle (fst ?a) n) (particle (fst ?b) n) (snd ?a)"
    by simp_all
  have b: "fold f [0..<Suc n] (s, acc) = ?b" by simp
  have an: "particle (fst ?a) n = particle s n" using ih3 by simp
  have "\<forall>i<Suc n. P (particle s i) (particle (fst ?b) i)"
  proof (intro allI impI)
    fix i assume "i < Suc n"
    show "P (particle s i) (particle (fst ?b) i)"
    proof (cases "i = n")
      case True
      with s3 an show ?thesis by simp
    next
      case False
      with \<open>i < Suc n\<close> have "i < n" by simp
      with ih2 s2 False show ?thesis by simp
    qed
  qed
  moreover have "\<forall>j. Suc n \<le> j \<longrightarrow> particle (fst ?b) j = particle s j"
    using s2 ih3 by simp
  moreover have "snd ?b = fold (\<lambda>i. g (particle s i) (particle (fst ?b) i)) [0..<Suc n] acc"
  proof -
    have "fold (\<lambda>i. g (particle s i) (particle (fst ?b) i)) [0..<n] acc
        = fold (\<lambda>i. g (particle s i) (particle (fst ?a) i)) [0..<n] acc"
      using s2 by (intro fold_cong) simp_all
    with s4 ih4 an show ?thesis by simp
  qed
  ultimately show ?case using s1 unfolding b by blast
qed

lemma hmm_init_particle_step:
  assumes ii: "ii < N" and sz: "arrays_sized N (fst a)"
  shows "arrays_sized N (fst (hmm_init_particle M data ii a))
      \<and> (\<forall>j. j \<noteq> ii \<longrightarrow> particle (fst (hmm_init_particle M data ii a)) j = particle (fst a) j)
      \<and> hmm_first_particle M data (particle (fst (hmm_init_particle M data ii a)) ii)
      \<and> snd (hmm_init_particle M data ii a)
          = (if dgt (snd (snd (particle (fst (hmm_init_particle M data ii a)) ii))) (snd a)
             then snd (snd (particle (fst (hmm_init_particle M data ii a)) ii)) else snd a)"
proof -
  obtain s m where a: "a = (s, m)" by (cases a)
  obtain x u' where q: "q1Samp M data (m_user s) = (x, u')" by (cases "q1Samp M data (m_user s)")
  have x: "\<exists>u. x = fst (q1Samp M data u)" using q by (intro exI[of _ "m_user s"]) simp
  show ?thesis
    using ii sz x
    by (simp add: a q hmm_init_particle_def arrays_sized_def particle_def Let_def
        hmm_first_particle_def)
qed

lemma kalman_init_particle_step:
  assumes ii: "ii < N" and sz: "arrays_sized N (fst a)"
  shows "arrays_sized N (fst (kalman_init_particle M data ii a))
      \<and> (\<forall>j. j \<noteq> ii \<longrightarrow> particle (fst (kalman_init_particle M data ii a)) j = particle (fst a) j)
      \<and> kalman_first_particle M data (particle (fst (kalman_init_particle M data ii a)) ii)
      \<and> snd (kalman_init_particle M data ii a)
          = (if dgt (snd (snd (particle (fst (kalman_init_particle M data ii a)) ii))) (snd a)
             then snd (snd (particle (fst (kalman_init_particle M data ii a)) ii)) else snd a)"
proof -
  obtain s m where a: "a = (s, m)" by (cases a)
  obtain x u' where q: "q1Samp M data (m_user s) = (x, u')" by (cases "q1Samp M data (m_user s)")
  have x: "\<exists>u. x = fst (q1Samp M data u)" using q by (intro exI[of _ "m_user s"]) simp
  show ?thesis
    using ii sz x
    by (simp add: a q kalman_init_particle_def arrays_sized_def particle_def Let_def
        kalman_first_particle_def)
qed

lemma hmm_update_particle_step:
  assumes ii: "ii < N" and sz: "arrays_sized N (fst a)"
  shows "arrays_sized N (fst (hmm_update_particle M data m2 ii a))
      \<and> (\<forall>j. j \<noteq> ii \<longrightarrow> particle (fst (hmm_update_particle M data m2 ii a)) j = particle (fst a) j)
      \<and> hmm_later_particle M data (particle (fst a) ii)
           (particle (fst (hmm_update_particle M data m2 ii a)) ii)
      \<and> snd (hmm_update_particle M data m2 ii a)
          = (\<lambda>(sd, m1).
               (dadd sd (dexp (dsub (snd (snd (particle (fst a) ii))) m2)),
                if dgt (snd (snd (particle (fst (hmm_update_particle M data m2 ii a)) ii))) m1
                then snd (snd (particle (fst (hmm_update_particle M data m2 ii a)) ii)) else m1))
            (snd a)"
proof -
  obtain s sd m1 where a: "a = (s, sd, m1)" by (cases a)
  obtain x u' where q: "qSamp M (m_p_samps s ! ii) data (m_user s) = (x, u')"
    by (cases "qSamp M (m_p_samps s ! ii) data (m_user s)")
  have x: "\<exists>u. x = fst (qSamp M (m_p_samps s ! ii) data u)"
    using q by (intro exI[of _ "m_user s"]) simp
  show ?thesis
    using ii sz x
    by (simp add: a q hmm_update_particle_def arrays_sized_def particle_def Let_def
        hmm_later_particle_def)
qed

lemma kalman_update_particle_step:
  assumes ii: "ii < N" and sz: "arrays_sized N (fst a)"
  shows "arrays_sized N (fst (kalman_update_particle M data m2 ii a))
      \<and> (\<forall>j. j \<noteq> ii \<longrightarrow> particle (fst (kalman_update_particle M data m2 ii a)) j = particle (fst a) j)
      \<and> kalman_later_particle M data (particle (fst a) ii)
           (particle (fst (kalman_update_particle M data m2 ii a)) ii)
      \<and> snd (kalman_update_particle M data m2 ii a)
          = (\<lambda>(sd, m1).
               (dadd sd (dexp (dsub (snd (snd (particle (fst a) ii))) m2)),
                if dgt (snd (snd (particle (fst (kalman_update_particle M data m2 ii a)) ii))) m1
                then snd (snd (particle (fst (kalman_update_particle M data m2 ii a)) ii)) else m1))
            (snd a)"
proof -
  obtain s sd m1 where a: "a = (s, sd, m1)" by (cases a)
  obtain x u' where q: "qSamp M (m_p_samps s ! ii) data (m_user s) = (x, u')"
    by (cases "qSamp M (m_p_samps s ! ii) data (m_user s)")
  have x: "\<exists>u. x = fst (qSamp M (m_p_samps s ! ii) data u)"
    using q by (intro exI[of _ "m_user s"]) simp
  show ?thesis
    using ii sz x
    by (simp add: a q kalman_update_particle_def arrays_sized_def particle_def Let_def
        kalman_later_particle_def)
qed

lemma first_loop:
  fixes f :: "nat \<Rightarrow> ('i, 'u, 'r) rbpf \<times> double \<Rightarrow> ('i, 'u, 'r) rbpf \<times> double"
  assumes step: "\<And>ii a. ii < N \<Longrightarrow> arrays_sized N (fst a) \<Longrightarrow>
        arrays_sized N (fst (f ii a))
      \<and> (\<forall>j. j \<noteq> ii \<longrightarrow> particle (fst (f ii a)) j = particle (fst a) j)
      \<and> Q (particle (fst (f ii a)) ii)
      \<and> snd (f ii a) = (if dgt (snd (snd (particle (fst (f ii a)) ii))) (snd a)
                        then snd (snd (particle (fst (f ii a)) ii)) else snd a)"
    and sized: "arrays_sized N s"
    and loop: "fold f [0..<N] (s, neg_infinity) = (s1, m)"
  shows "arrays_sized N s1 \<and> (\<forall>i<N. Q (particle s1 i))
       \<and> is_running_maximum_of m (m_logUnNormWeights s1)
       \<and> m = spec_max (m_logUnNormWeights s1)"
proof -
  let ?g = "\<lambda>(p :: 'i \<times> sssv \<times> double) (p' :: 'i \<times> sssv \<times> double) m.
              if dgt (snd (snd p')) m then snd (snd p') else m"
  have fs: "fst (fold f [0..<N] (s, neg_infinity)) = s1"
    "snd (fold f [0..<N] (s, neg_infinity)) = m"
    using loop by simp_all
  note pl = particle_loop[where f=f and N=N and n=N and s=s and acc=neg_infinity
      and P="\<lambda>p p'. Q p'" and g="?g", OF step le_refl sized, unfolded fs]
  from pl
  have 1: "arrays_sized N s1" and 2: "\<forall>i<N. Q (particle s1 i)"
    and 3: "m = fold (\<lambda>i. ?g (particle s i) (particle s1 i)) [0..<N] neg_infinity"
    by simp_all
  from 1 have len: "length (m_logUnNormWeights s1) = N" by (simp add: arrays_sized_def)
  from 3 have m: "m = fold (\<lambda>i m. if dgt (m_logUnNormWeights s1 ! i) m
                                   then m_logUnNormWeights s1 ! i else m) [0..<N] neg_infinity"
    by (simp add: particle_def cong: if_cong)
  show ?thesis
    using 1 2 running_max_is_maximum[OF len] running_max_spec[OF len] unfolding m by simp
qed

lemma later_loop:
  fixes f :: "nat \<Rightarrow> ('i, 'u, 'r) rbpf \<times> double \<times> double \<Rightarrow> ('i, 'u, 'r) rbpf \<times> double \<times> double"
  assumes step: "\<And>ii a. ii < N \<Longrightarrow> arrays_sized N (fst a) \<Longrightarrow>
        arrays_sized N (fst (f ii a))
      \<and> (\<forall>j. j \<noteq> ii \<longrightarrow> particle (fst (f ii a)) j = particle (fst a) j)
      \<and> Q (particle (fst a) ii) (particle (fst (f ii a)) ii)
      \<and> snd (f ii a)
          = (\<lambda>(sd, m1).
               (dadd sd (dexp (dsub (snd (snd (particle (fst a) ii))) m2)),
                if dgt (snd (snd (particle (fst (f ii a)) ii))) m1
                then snd (snd (particle (fst (f ii a)) ii)) else m1))
            (snd a)"
    and sized: "arrays_sized N s"
    and loop: "fold f [0..<N] (s, Finite 0, neg_infinity) = (s1, sd, m1)"
  shows "arrays_sized N s1 \<and> (\<forall>i<N. Q (particle s i) (particle s1 i))
       \<and> sd = dsum N (\<lambda>i. dexp (dsub (m_logUnNormWeights s ! i) m2))
       \<and> is_running_maximum_of m1 (m_logUnNormWeights s1)
       \<and> m1 = spec_max (m_logUnNormWeights s1)"
proof -
  let ?g = "\<lambda>(p :: 'i \<times> sssv \<times> double) (p' :: 'i \<times> sssv \<times> double). \<lambda>(sd, m1).
              (dadd sd (dexp (dsub (snd (snd p)) m2)),
               if dgt (snd (snd p')) m1 then snd (snd p') else m1)"
  have fs: "fst (fold f [0..<N] (s, Finite 0, neg_infinity)) = s1"
    "snd (fold f [0..<N] (s, Finite 0, neg_infinity)) = (sd, m1)"
    using loop by simp_all
  note pl = particle_loop[where f=f and N=N and n=N and s=s and acc="(Finite 0, neg_infinity)"
      and P=Q and g="?g", OF step le_refl sized, unfolded fs]
  from pl
  have 1: "arrays_sized N s1" and 2: "\<forall>i<N. Q (particle s i) (particle s1 i)"
    and 3: "(sd, m1) = fold (\<lambda>i. ?g (particle s i) (particle s1 i)) [0..<N]
                         (Finite 0, neg_infinity)"
    by simp_all
  from 1 have len: "length (m_logUnNormWeights s1) = N" by (simp add: arrays_sized_def)
  have "(sd, m1) = (fold (\<lambda>i sd. dadd sd (dexp (dsub (m_logUnNormWeights s ! i) m2))) [0..<N]
                      (Finite 0),
                    fold (\<lambda>i m. if dgt (m_logUnNormWeights s1 ! i) m
                                then m_logUnNormWeights s1 ! i else m) [0..<N] neg_infinity)"
    unfolding 3 by (simp add: particle_def fold_pair cong: if_cong)
  then have sd: "sd = dsum N (\<lambda>i. dexp (dsub (m_logUnNormWeights s ! i) m2))"
    and m: "m1 = fold (\<lambda>i m. if dgt (m_logUnNormWeights s1 ! i) m
                                then m_logUnNormWeights s1 ! i else m) [0..<N] neg_infinity"
    by (simp_all add: dsum_def)
  show ?thesis
    using 1 2 sd running_max_is_maximum[OF len] running_max_spec[OF len] unfolding m by simp
qed

subsection \<open>The expectations that are cached\<close>

lemma calc_expectations_entries:
  "calc_expectations n gfv mods samps ws m fs fId exps = Inr exps' \<Longrightarrow>
     (\<forall>k<length fs. expectation n gfv (fs ! k) mods samps ws m = Inr (exps' ! (fId + k)))
     \<and> (\<forall>j<fId. exps' ! j = exps ! j)"
proof (induction fs arbitrary: fId exps)
  case Nil
  then show ?case by simp
next
  case (Cons h fs)
  from Cons.prems obtain v where v: "expectation n gfv h mods samps ws m = Inr v"
    and fId: "fId < length exps"
    and rest: "calc_expectations n gfv mods samps ws m fs (Suc fId) (exps[fId := v]) = Inr exps'"
    by (auto split: sum.splits if_splits)
  from Cons.IH[OF rest]
  have ih1: "\<forall>k<length fs. expectation n gfv (fs ! k) mods samps ws m = Inr (exps' ! (Suc fId + k))"
    and ih2: "\<forall>j<Suc fId. exps' ! j = exps[fId := v] ! j"
    by simp_all
  from ih2 fId have at: "exps' ! fId = v" by simp
  have "expectation n gfv ((h # fs) ! k) mods samps ws m = Inr (exps' ! (fId + k))"
    if "k < length (h # fs)" for k
  proof (cases k)
    case 0
    with v at show ?thesis by simp
  next
    case (Suc k')
    with that ih1 show ?thesis by simp
  qed
  moreover have "\<forall>j<fId. exps' ! j = exps ! j" using ih2 by simp
  ultimately show ?case by blast
qed



lemma after_weights_anatomy:
  assumes "after_weights nparts M fs (Inr q) = Inr s'"
  shows "\<exists>m. max_element (m_logUnNormWeights q) = Inr m
     \<and> (\<forall>k<length fs. expectation nparts (getFilterVec M) (fs ! k) (m_p_innerMods q)
            (m_p_samps q) (m_logUnNormWeights q) m = Inr (m_expectations s' ! k))
     \<and> (m_resampler s', m_p_innerMods s', m_p_samps s', m_logUnNormWeights s')
         = (if (m_now q + 1) mod m_rs q = 0
            then resampLogWts M (m_resampler q) (m_p_innerMods q) (m_p_samps q)
                   (m_logUnNormWeights q)
            else (m_resampler q, m_p_innerMods q, m_p_samps q, m_logUnNormWeights q))
     \<and> m_now s' = m_now q + 1 \<and> m_rs s' = m_rs q \<and> m_rs q \<noteq> 0
     \<and> m_lastLogCondLike s' = m_lastLogCondLike q"
proof -
  from assms obtain p where e: "expectations_block nparts M fs q = Inr p"
    and r: "resample_and_advance M p = Inr s'"
    by (auto simp: after_weights_def split: sum.splits)
  from e obtain m exps where m: "max_element (m_logUnNormWeights q) = Inr m"
    and c: "calc_expectations nparts (getFilterVec M) (m_p_innerMods q) (m_p_samps q)
              (m_logUnNormWeights q) m fs 0 (m_expectations q) = Inr exps"
    and p: "p = q\<lparr>m_expectations := exps\<rparr>"
    by (auto simp: expectations_block_def split: sum.splits)
  from calc_expectations_entries[OF c]
  have ex: "\<forall>k<length fs. expectation nparts (getFilterVec M) (fs ! k) (m_p_innerMods q)
            (m_p_samps q) (m_logUnNormWeights q) m = Inr (exps ! k)"
    by simp
  from resample_and_advance_Inr[OF r] p
  have rs: "m_rs q \<noteq> 0"
    and s': "s' = (if (m_now q + 1) mod m_rs q = 0 then resample M p else p)
                     \<lparr>m_now := m_now q + 1\<rparr>"
    by simp_all
  have exps: "m_expectations s' = exps" using s' p by (simp add: resample_frame)
  have arr: "(m_resampler s', m_p_innerMods s', m_p_samps s', m_logUnNormWeights s')
         = (if (m_now q + 1) mod m_rs q = 0
            then resampLogWts M (m_resampler q) (m_p_innerMods q) (m_p_samps q)
                   (m_logUnNormWeights q)
            else (m_resampler q, m_p_innerMods q, m_p_samps q, m_logUnNormWeights q))"
    using s' p by (simp add: resample_def split: prod.splits)
  have rest: "m_now s' = m_now q + 1 \<and> m_rs s' = m_rs q
      \<and> m_lastLogCondLike s' = m_lastLogCondLike q"
    using s' p by (simp add: resample_frame)
  from m ex exps arr rs rest show ?thesis by simp
qed

subsection \<open>A call, part by part\<close>

lemma hmm_weights_phase_anatomy:
  assumes ph: "hmm_weights_phase nparts M data fs s = Inr q"
    and sized: "arrays_sized nparts s"
  shows "\<exists>m1 m2. arrays_sized nparts q
     \<and> m_now q = m_now s \<and> m_rs q = m_rs s \<and> m_resampler q = m_resampler s
     \<and> (\<forall>i<nparts. if m_now s = 0 then hmm_first_particle M data (particle q i)
                     else hmm_later_particle M data (particle s i) (particle q i))
     \<and> is_running_maximum_of m1 (m_logUnNormWeights q)
     \<and> m1 = spec_max (m_logUnNormWeights q)
     \<and> (m_now s \<noteq> 0 \<longrightarrow> max_element (m_logUnNormWeights s) = Inr m2)
     \<and> m_lastLogCondLike q =
         (if m_now s = 0
          then dsub (dadd m1 (dlog (dsum nparts (\<lambda>i. dexp (dsub (m_logUnNormWeights q ! i) m1)))))
                    (dlog (Finite (real nparts)))
          else dsub (dsub (dadd m1 (dlog (dsum nparts
                                       (\<lambda>i. dexp (dsub (m_logUnNormWeights q ! i) m1))))) m2)
                    (dlog (dsum nparts (\<lambda>i. dexp (dsub (m_logUnNormWeights s ! i) m2)))))"
proof (cases "m_now s = 0")
  case True
  obtain s1 m where loop:
    "fold (hmm_init_particle M data) [0..<nparts] (s, neg_infinity) = (s1, m)"
    by (cases "fold (hmm_init_particle M data) [0..<nparts] (s, neg_infinity)")
  from ph True loop have q: "q = s1\<lparr>m_lastLogCondLike :=
                       dsub (dadd m (dlog (sum_exp_shifted nparts (m_logUnNormWeights s1) m)))
                            (dlog (Finite (real nparts))),
                     m_expectations := resize_vec (length fs) (m_expectations s1)\<rparr>"
    by (simp add: hmm_weights_phase_def)
  from first_loop[where f="hmm_init_particle M data" and Q="hmm_first_particle M data",
      OF hmm_init_particle_step sized loop]
  have f: "arrays_sized nparts s1" "\<forall>i<nparts. hmm_first_particle M data (particle s1 i)"
    "is_running_maximum_of m (m_logUnNormWeights s1)" "m = spec_max (m_logUnNormWeights s1)"
    by blast+
  have fr: "m_now s1 = m_now s" "m_rs s1 = m_rs s" "m_resampler s1 = m_resampler s"
    using hmm_init_loop_only[OF loop] by (simp_all add: particles_only_def)
  have p: "particle q i = particle s1 i" for i by (simp add: q particle_def)
  have qf: "m_logUnNormWeights q = m_logUnNormWeights s1" "m_now q = m_now s1"
    "m_rs q = m_rs s1" "m_resampler q = m_resampler s1"
    "arrays_sized nparts q = arrays_sized nparts s1"
    "m_lastLogCondLike q =
       dsub (dadd m (dlog (dsum nparts (\<lambda>i. dexp (dsub (m_logUnNormWeights s1 ! i) m)))))
            (dlog (Finite (real nparts)))"
    by (simp_all add: q arrays_sized_def sum_exp_shifted_dsum)
  show ?thesis
    apply (rule exI[of _ m], rule exI[of _ m])
    unfolding qf p fr
    using True f by simp
next
  case False
  from ph False obtain m2 where m2: "max_element (m_logUnNormWeights s) = Inr m2"
    by (auto simp: hmm_weights_phase_def split: sum.splits)
  obtain s1 sd m1 where loop:
    "fold (hmm_update_particle M data m2) [0..<nparts] (s, Finite 0, neg_infinity) = (s1, sd, m1)"
    by (cases "fold (hmm_update_particle M data m2) [0..<nparts] (s, Finite 0, neg_infinity)")
  from ph False m2 loop have q: "q = s1\<lparr>m_lastLogCondLike :=
                            dsub (dsub (dadd m1 (dlog (sum_exp_shifted nparts
                                                        (m_logUnNormWeights s1) m1))) m2)
                                 (dlog sd)\<rparr>"
    by (simp add: hmm_weights_phase_def)
  from later_loop[where f="hmm_update_particle M data m2" and Q="hmm_later_particle M data"
      and ?m2.0=m2, OF hmm_update_particle_step sized loop]
  have f: "arrays_sized nparts s1"
    "\<forall>i<nparts. hmm_later_particle M data (particle s i) (particle s1 i)"
    "sd = dsum nparts (\<lambda>i. dexp (dsub (m_logUnNormWeights s ! i) m2))"
    "is_running_maximum_of m1 (m_logUnNormWeights s1)" "m1 = spec_max (m_logUnNormWeights s1)"
    by blast+
  have fr: "m_now s1 = m_now s" "m_rs s1 = m_rs s" "m_resampler s1 = m_resampler s"
    using hmm_update_loop_only[OF loop] by (simp_all add: particles_only_def)
  have p: "particle q i = particle s1 i" for i by (simp add: q particle_def)
  have qf: "m_logUnNormWeights q = m_logUnNormWeights s1" "m_now q = m_now s1"
    "m_rs q = m_rs s1" "m_resampler q = m_resampler s1"
    "arrays_sized nparts q = arrays_sized nparts s1"
    "m_lastLogCondLike q =
       dsub (dsub (dadd m1 (dlog (dsum nparts
                                    (\<lambda>i. dexp (dsub (m_logUnNormWeights s1 ! i) m1))))) m2)
            (dlog sd)"
    by (simp_all add: q arrays_sized_def sum_exp_shifted_dsum)
  show ?thesis
    apply (rule exI[of _ m1], rule exI[of _ m2])
    unfolding qf p fr
    using False f(1,2,4,5) m2 unfolding f(3) by simp
qed

lemma kalman_weights_phase_anatomy:
  assumes ph: "kalman_weights_phase nparts M data fs s = Inr q"
    and sized: "arrays_sized nparts s"
  shows "\<exists>m1 m2. arrays_sized nparts q
     \<and> m_now q = m_now s \<and> m_rs q = m_rs s \<and> m_resampler q = m_resampler s
     \<and> (\<forall>i<nparts. if m_now s = 0 then kalman_first_particle M data (particle q i)
                     else kalman_later_particle M data (particle s i) (particle q i))
     \<and> is_running_maximum_of m1 (m_logUnNormWeights q)
     \<and> m1 = spec_max (m_logUnNormWeights q)
     \<and> (m_now s \<noteq> 0 \<longrightarrow> max_element (m_logUnNormWeights s) = Inr m2)
     \<and> m_lastLogCondLike q = m_lastLogCondLike s
     \<and> kalman_increment nparts M data s = Inr
         (if m_now s = 0
          then dsub (dadd m1 (dlog (dsum nparts (\<lambda>i. dexp (dsub (m_logUnNormWeights q ! i) m1)))))
                    (dlog (Finite (real nparts)))
          else dsub (dsub (dadd m1 (dlog (dsum nparts
                                       (\<lambda>i. dexp (dsub (m_logUnNormWeights q ! i) m1))))) m2)
                    (dlog (dsum nparts (\<lambda>i. dexp (dsub (m_logUnNormWeights s ! i) m2)))))"
proof (cases "m_now s = 0")
  case True
  obtain s1 m where loop:
    "fold (kalman_init_particle M data) [0..<nparts] (s, neg_infinity) = (s1, m)"
    by (cases "fold (kalman_init_particle M data) [0..<nparts] (s, neg_infinity)")
  from ph True loop have q: "q = s1\<lparr>m_expectations := resize_vec (length fs) (m_expectations s1)\<rparr>"
    by (simp add: kalman_weights_phase_def)
  from first_loop[where f="kalman_init_particle M data" and Q="kalman_first_particle M data",
      OF kalman_init_particle_step sized loop]
  have f: "arrays_sized nparts s1" "\<forall>i<nparts. kalman_first_particle M data (particle s1 i)"
    "is_running_maximum_of m (m_logUnNormWeights s1)" "m = spec_max (m_logUnNormWeights s1)"
    by blast+
  have fr: "m_now s1 = m_now s" "m_rs s1 = m_rs s" "m_resampler s1 = m_resampler s"
    "m_lastLogCondLike s1 = m_lastLogCondLike s"
    using kalman_init_loop_only[OF loop] by (simp_all add: particles_only_def)
  have p: "particle q i = particle s1 i" for i by (simp add: q particle_def)
  have qf: "m_logUnNormWeights q = m_logUnNormWeights s1" "m_now q = m_now s1"
    "m_rs q = m_rs s1" "m_resampler q = m_resampler s1"
    "arrays_sized nparts q = arrays_sized nparts s1"
    "m_lastLogCondLike q = m_lastLogCondLike s1"
    by (simp_all add: q arrays_sized_def)
  have inc: "kalman_increment nparts M data s = Inr
       (dsub (dadd m (dlog (dsum nparts (\<lambda>i. dexp (dsub (m_logUnNormWeights s1 ! i) m)))))
             (dlog (Finite (real nparts))))"
    using True loop
    by (simp add: kalman_increment_def kalman_first_loglike_def sum_exp_shifted_dsum)
  show ?thesis
    apply (rule exI[of _ m], rule exI[of _ m])
    unfolding qf p fr inc
    using True f by simp
next
  case False
  from ph False obtain m2 where m2: "max_element (m_logUnNormWeights s) = Inr m2"
    by (auto simp: kalman_weights_phase_def split: sum.splits)
  obtain s1 sd m1 where loop:
    "fold (kalman_update_particle M data m2) [0..<nparts] (s, Finite 0, neg_infinity)
       = (s1, sd, m1)"
    by (cases "fold (kalman_update_particle M data m2) [0..<nparts] (s, Finite 0, neg_infinity)")
  from ph False m2 loop have q: "q = s1"
    by (simp add: kalman_weights_phase_def)
  from later_loop[where f="kalman_update_particle M data m2" and Q="kalman_later_particle M data"
      and ?m2.0=m2, OF kalman_update_particle_step sized loop]
  have f: "arrays_sized nparts s1"
    "\<forall>i<nparts. kalman_later_particle M data (particle s i) (particle s1 i)"
    "sd = dsum nparts (\<lambda>i. dexp (dsub (m_logUnNormWeights s ! i) m2))"
    "is_running_maximum_of m1 (m_logUnNormWeights s1)" "m1 = spec_max (m_logUnNormWeights s1)"
    by blast+
  have fr: "m_now s1 = m_now s" "m_rs s1 = m_rs s" "m_resampler s1 = m_resampler s"
    "m_lastLogCondLike s1 = m_lastLogCondLike s"
    using kalman_update_loop_only[OF loop] by (simp_all add: particles_only_def)
  have inc: "kalman_increment nparts M data s = Inr
       (dsub (dsub (dadd m1 (dlog (dsum nparts
                                    (\<lambda>i. dexp (dsub (m_logUnNormWeights s1 ! i) m1))))) m2)
             (dlog sd))"
    using False m2 loop
    by (simp add: kalman_increment_def kalman_next_loglike_def sum_exp_shifted_dsum)
  show ?thesis
    apply (rule exI[of _ m1], rule exI[of _ m2])
    unfolding q fr inc
    using False f(1,2,4,5) m2 unfolding f(3) by simp
qed

lemma gate_in_steps:
  assumes "unat (x :: 32 word) + 1 < 2 ^ 32"
  shows "((x + 1) mod y = 0) = (unat y dvd unat x + 1)" and "unat (x + 1) = unat x + 1"
proof -
  show u: "unat (x + 1) = unat x + 1" using unat_succ[OF assms] by simp
  show "((x + 1) mod y = 0) = (unat y dvd unat x + 1)"
    unfolding word_mod_zero_iff u by (simp add: dvd_eq_mod_eq_0)
qed

lemma hmm_call_order:
  assumes ret: "rbpf_hmm_filter nparts M data fs s = Inr s'"
    and sized: "arrays_sized nparts s"
  shows "\<exists>q m m2. hmm_weights_phase nparts M data fs s = Inr q
         \<and> (\<forall>i<nparts. if m_now s = 0 then hmm_first_particle M data (particle q i)
                         else hmm_later_particle M data (particle s i) (particle q i))
         \<and> (m_now s \<noteq> 0 \<longrightarrow> is_maximum_of m2 (m_logUnNormWeights s))
         \<and> getLogCondLike s' =
             (if m_now s = 0
              then dsub (logsumexp (m_logUnNormWeights q)) (dlog (Finite (real nparts)))
              else dsub (dsub (logsumexp (m_logUnNormWeights q)) m2)
                        (dlog (dsum nparts (\<lambda>i. dexp (dsub (m_logUnNormWeights s ! i) m2)))))
         \<and> is_maximum_of m (m_logUnNormWeights q)
         \<and> (\<forall>k<length fs. expectation nparts (getFilterVec M) (fs ! k) (m_p_innerMods q)
                (m_p_samps q) (m_logUnNormWeights q) m = Inr (getExpectations s' ! k))
         \<and> (m_resampler s', m_p_innerMods s', m_p_samps s', m_logUnNormWeights s')
             = (if (m_now s + 1) mod m_rs s = 0
                then resampLogWts M (m_resampler s) (m_p_innerMods q) (m_p_samps q)
                       (m_logUnNormWeights q)
                else (m_resampler s, m_p_innerMods q, m_p_samps q, m_logUnNormWeights q))
         \<and> m_now s' = m_now s + 1"
proof -
  from ret obtain q where ph: "hmm_weights_phase nparts M data fs s = Inr q"
    and aw: "after_weights nparts M fs (Inr q) = Inr s'"
    unfolding hmm_filter_phases
    by (cases "hmm_weights_phase nparts M data fs s") (simp_all add: after_weights_def)
  from hmm_weights_phase_anatomy[OF ph sized] obtain m1 m2 where
    sq: "arrays_sized nparts q"
    and fr: "m_now q = m_now s" "m_rs q = m_rs s" "m_resampler q = m_resampler s"
    and pt: "\<forall>i<nparts. if m_now s = 0 then hmm_first_particle M data (particle q i)
                         else hmm_later_particle M data (particle s i) (particle q i)"
    and m1: "m1 = spec_max (m_logUnNormWeights q)"
    and m2: "m_now s \<noteq> 0 \<longrightarrow> max_element (m_logUnNormWeights s) = Inr m2"
    and l: "m_lastLogCondLike q =
         (if m_now s = 0
          then dsub (dadd m1 (dlog (dsum nparts (\<lambda>i. dexp (dsub (m_logUnNormWeights q ! i) m1)))))
                    (dlog (Finite (real nparts)))
          else dsub (dsub (dadd m1 (dlog (dsum nparts
                                       (\<lambda>i. dexp (dsub (m_logUnNormWeights q ! i) m1))))) m2)
                    (dlog (dsum nparts (\<lambda>i. dexp (dsub (m_logUnNormWeights s ! i) m2)))))"
    by (elim exE conjE) (rule that)
  from sq have lenq: "length (m_logUnNormWeights q) = nparts" by (simp add: arrays_sized_def)
  from after_weights_anatomy[OF aw] obtain m where
    m: "max_element (m_logUnNormWeights q) = Inr m"
    and ex: "\<forall>k<length fs. expectation nparts (getFilterVec M) (fs ! k) (m_p_innerMods q)
            (m_p_samps q) (m_logUnNormWeights q) m = Inr (m_expectations s' ! k)"
    and rs: "(m_resampler s', m_p_innerMods s', m_p_samps s', m_logUnNormWeights s')
         = (if (m_now q + 1) mod m_rs q = 0
            then resampLogWts M (m_resampler q) (m_p_innerMods q) (m_p_samps q)
                   (m_logUnNormWeights q)
            else (m_resampler q, m_p_innerMods q, m_p_samps q, m_logUnNormWeights q))"
    and now: "m_now s' = m_now q + 1"
    and ls: "m_lastLogCondLike s' = m_lastLogCondLike q"
    by (elim exE conjE) (rule that)
  have m2': "m_now s \<noteq> 0 \<longrightarrow> is_maximum_of m2 (m_logUnNormWeights s)"
    using m2 by (auto dest: max_element_is_maximum)
  have l': "getLogCondLike s' =
             (if m_now s = 0
              then dsub (logsumexp (m_logUnNormWeights q)) (dlog (Finite (real nparts)))
              else dsub (dsub (logsumexp (m_logUnNormWeights q)) m2)
                        (dlog (dsum nparts (\<lambda>i. dexp (dsub (m_logUnNormWeights s ! i) m2)))))"
    unfolding getLogCondLike_def ls l m1 logsumexp_dsum[OF lenq] by (rule refl)
  show ?thesis
    apply (rule exI[of _ q], rule exI[of _ m], rule exI[of _ m2])
    using ph pt m2' l' max_element_is_maximum[OF m] ex[folded getExpectations_def]
      rs[unfolded fr] now[unfolded fr]
    by (intro conjI)
qed

lemma kalman_call_order:
  assumes ret: "rbpf_kalman_filter nparts M data fs s = Inr s'"
    and sized: "arrays_sized nparts s"
  shows "\<exists>q m m2. kalman_weights_phase nparts M data fs s = Inr q
         \<and> (\<forall>i<nparts. if m_now s = 0 then kalman_first_particle M data (particle q i)
                         else kalman_later_particle M data (particle s i) (particle q i))
         \<and> (m_now s \<noteq> 0 \<longrightarrow> is_maximum_of m2 (m_logUnNormWeights s))
         \<and> kalman_increment nparts M data s = Inr
             (if m_now s = 0
              then dsub (logsumexp (m_logUnNormWeights q)) (dlog (Finite (real nparts)))
              else dsub (dsub (logsumexp (m_logUnNormWeights q)) m2)
                        (dlog (dsum nparts (\<lambda>i. dexp (dsub (m_logUnNormWeights s ! i) m2)))))
         \<and> is_maximum_of m (m_logUnNormWeights q)
         \<and> (\<forall>k<length fs. expectation nparts (getFilterVec M) (fs ! k) (m_p_innerMods q)
                (m_p_samps q) (m_logUnNormWeights q) m = Inr (getExpectations s' ! k))
         \<and> (m_resampler s', m_p_innerMods s', m_p_samps s', m_logUnNormWeights s')
             = (if (m_now s + 1) mod m_rs s = 0
                then resampLogWts M (m_resampler s) (m_p_innerMods q) (m_p_samps q)
                       (m_logUnNormWeights q)
                else (m_resampler s, m_p_innerMods q, m_p_samps q, m_logUnNormWeights q))
         \<and> m_now s' = m_now s + 1"
proof -
  from ret obtain q where ph: "kalman_weights_phase nparts M data fs s = Inr q"
    and aw: "after_weights nparts M fs (Inr q) = Inr s'"
    unfolding kalman_filter_phases
    by (cases "kalman_weights_phase nparts M data fs s") (simp_all add: after_weights_def)
  from kalman_weights_phase_anatomy[OF ph sized] obtain m1 m2 where
    sq: "arrays_sized nparts q"
    and fr: "m_now q = m_now s" "m_rs q = m_rs s" "m_resampler q = m_resampler s"
    and pt: "\<forall>i<nparts. if m_now s = 0 then kalman_first_particle M data (particle q i)
                         else kalman_later_particle M data (particle s i) (particle q i)"
    and m1: "m1 = spec_max (m_logUnNormWeights q)"
    and m2: "m_now s \<noteq> 0 \<longrightarrow> max_element (m_logUnNormWeights s) = Inr m2"
    and l: "kalman_increment nparts M data s = Inr
         (if m_now s = 0
          then dsub (dadd m1 (dlog (dsum nparts (\<lambda>i. dexp (dsub (m_logUnNormWeights q ! i) m1)))))
                    (dlog (Finite (real nparts)))
          else dsub (dsub (dadd m1 (dlog (dsum nparts
                                       (\<lambda>i. dexp (dsub (m_logUnNormWeights q ! i) m1))))) m2)
                    (dlog (dsum nparts (\<lambda>i. dexp (dsub (m_logUnNormWeights s ! i) m2)))))"
    by (elim exE conjE) (rule that)
  from sq have lenq: "length (m_logUnNormWeights q) = nparts" by (simp add: arrays_sized_def)
  from after_weights_anatomy[OF aw] obtain m where
    m: "max_element (m_logUnNormWeights q) = Inr m"
    and ex: "\<forall>k<length fs. expectation nparts (getFilterVec M) (fs ! k) (m_p_innerMods q)
            (m_p_samps q) (m_logUnNormWeights q) m = Inr (m_expectations s' ! k)"
    and rs: "(m_resampler s', m_p_innerMods s', m_p_samps s', m_logUnNormWeights s')
         = (if (m_now q + 1) mod m_rs q = 0
            then resampLogWts M (m_resampler q) (m_p_innerMods q) (m_p_samps q)
                   (m_logUnNormWeights q)
            else (m_resampler q, m_p_innerMods q, m_p_samps q, m_logUnNormWeights q))"
    and now: "m_now s' = m_now q + 1"
    by (elim exE conjE) (rule that)
  have m2': "m_now s \<noteq> 0 \<longrightarrow> is_maximum_of m2 (m_logUnNormWeights s)"
    using m2 by (auto dest: max_element_is_maximum)
  have l': "kalman_increment nparts M data s = Inr
             (if m_now s = 0
              then dsub (logsumexp (m_logUnNormWeights q)) (dlog (Finite (real nparts)))
              else dsub (dsub (logsumexp (m_logUnNormWeights q)) m2)
                        (dlog (dsum nparts (\<lambda>i. dexp (dsub (m_logUnNormWeights s ! i) m2)))))"
    unfolding l m1 logsumexp_dsum[OF lenq] by (rule refl)
  show ?thesis
    apply (rule exI[of _ q], rule exI[of _ m], rule exI[of _ m2])
    using ph pt m2' l' max_element_is_maximum[OF m] ex[folded getExpectations_def]
      rs[unfolded fr] now[unfolded fr]
    by (intro conjI)
qed


section \<open>The resampling schedule and the order of a step\<close>

text \<open>
  C6, as the specification has it, speaks of every sequence of calls.  The step counter is
  an \<^verbatim>\<open>unsigned int\<close>.  After \<open>2\<^sup>3\<^sup>2 - 1\<close> calls it holds 4294967295 (with period 5 the
  resampler has then run 858993459 times), and in the next call \<^verbatim>\<open>m_now + 1\<close> wraps to
  0, which is a multiple of every period: both engines resample in step \<open>2\<^sup>3\<^sup>2\<close>, which 5
  does not divide.  The counter is 0 afterwards, so the call after that takes the first
  branch again.
\<close>

theorem resampling_at_counter_wrap:
  "unat (m_now (demo_state 4294967295 5 (Finite 0) [Finite (- ln 2), Finite (- ln 2)]
                  858993459 [] 8589934590)) + 1 = 2 ^ 32
   \<and> \<not> (5 :: nat) dvd 2 ^ 32
   \<and> rbpf_hmm_filter 2 demo_hmm demo_y []
       (demo_state 4294967295 5 (Finite 0) [Finite (- ln 2), Finite (- ln 2)] 858993459 []
          8589934590)
     = Inr (demo_state 0 5 (Finite 0) [Finite (- ln 2), Finite (- ln 2)] 858993460 []
          8589934592)
   \<and> rbpf_kalman_filter 2 demo_kalman demo_y []
       (demo_state 4294967295 5 (Finite 0) [Finite (- ln 2), Finite (- ln 2)] 858993459 []
          8589934590)
     = Inr (demo_state 0 5 (Finite 0) [Finite (- ln 2), Finite (- ln 2)] 858993460 []
          8589934592)
   \<and> m_resampler (demo_state 0 5 (Finite 0) [Finite (- ln 2), Finite (- ln 2)] 858993460 []
          8589934592)
     = Suc (m_resampler (demo_state 4294967295 5 (Finite 0) [Finite (- ln 2), Finite (- ln 2)]
          858993459 [] 8589934590))"
  by (simp add: demo_hmm_wrap demo_kalman_wrap demo_state_sel)

text \<open>
  C6, for sequences of fewer than \<open>2\<^sup>3\<^sup>2\<close> calls.  A call that returns has done, in this order:
  the loop over the particles, which leaves the state \<open>q\<close> (for every particle a sample
  drawn and the inner filter updated with it, and on the first step the log-weight set);
  the log-likelihood from the log-weights of \<open>q\<close>, which the HMM engine stores and the
  Kalman engine computes; the expectations, from the inner filters, samples and log-weights
  of \<open>q\<close> and their maximum; the resampler, on those arrays of \<open>q\<close>, if and only if
  \<open>(m_now + 1) mod m_rs = 0\<close>; and the counter, advanced by one.  While the counter does
  not wrap, the gate is that the period divides the step count after being advanced; with
  period 1 every step resamples.  With a resampler whose state counts its calls, a run of
  \<open>k < 2\<^sup>3\<^sup>2\<close> calls from a fresh engine leaves the count at \<open>k div R\<close>.  The three arrays
  have \<^verbatim>\<open>nparts\<close> elements, as \<^verbatim>\<open>std::array\<close>s do.
\<close>

theorem call_order_and_resampling_schedule:
  fixes M :: "('i, 'u, nat) hmm_model" and K :: "('i, 'u, nat) kalman_model"
  assumes cM: "\<forall>r a b c. fst (resampLogWts M r a b c) = Suc r"
    and cK: "\<forall>r a b c. fst (resampLogWts K r a b c) = Suc r"
    and len: "length calls < 2 ^ 32"
    and sized: "arrays_sized nparts s" "arrays_sized nparts t"
  shows
   "(rbpf_hmm_filter nparts M data fs s = Inr s' \<longrightarrow>
      (\<exists>q m m2. hmm_weights_phase nparts M data fs s = Inr q
         \<and> (\<forall>i<nparts. if m_now s = 0 then hmm_first_particle M data (particle q i)
                         else hmm_later_particle M data (particle s i) (particle q i))
         \<and> (m_now s \<noteq> 0 \<longrightarrow> is_maximum_of m2 (m_logUnNormWeights s))
         \<and> getLogCondLike s' =
             (if m_now s = 0
              then dsub (logsumexp (m_logUnNormWeights q)) (dlog (Finite (real nparts)))
              else dsub (dsub (logsumexp (m_logUnNormWeights q)) m2)
                        (dlog (dsum nparts (\<lambda>i. dexp (dsub (m_logUnNormWeights s ! i) m2)))))
         \<and> is_maximum_of m (m_logUnNormWeights q)
         \<and> (\<forall>k<length fs. expectation nparts (getFilterVec M) (fs ! k) (m_p_innerMods q)
                (m_p_samps q) (m_logUnNormWeights q) m = Inr (getExpectations s' ! k))
         \<and> (m_resampler s', m_p_innerMods s', m_p_samps s', m_logUnNormWeights s')
             = (if (m_now s + 1) mod m_rs s = 0
                then resampLogWts M (m_resampler s) (m_p_innerMods q) (m_p_samps q)
                       (m_logUnNormWeights q)
                else (m_resampler s, m_p_innerMods q, m_p_samps q, m_logUnNormWeights q))
         \<and> m_now s' = m_now s + 1))
    \<and> (rbpf_kalman_filter nparts K data fs t = Inr t' \<longrightarrow>
      (\<exists>q m m2. kalman_weights_phase nparts K data fs t = Inr q
         \<and> (\<forall>i<nparts. if m_now t = 0 then kalman_first_particle K data (particle q i)
                         else kalman_later_particle K data (particle t i) (particle q i))
         \<and> (m_now t \<noteq> 0 \<longrightarrow> is_maximum_of m2 (m_logUnNormWeights t))
         \<and> kalman_increment nparts K data t = Inr
             (if m_now t = 0
              then dsub (logsumexp (m_logUnNormWeights q)) (dlog (Finite (real nparts)))
              else dsub (dsub (logsumexp (m_logUnNormWeights q)) m2)
                        (dlog (dsum nparts (\<lambda>i. dexp (dsub (m_logUnNormWeights t ! i) m2)))))
         \<and> is_maximum_of m (m_logUnNormWeights q)
         \<and> (\<forall>k<length fs. expectation nparts (getFilterVec K) (fs ! k) (m_p_innerMods q)
                (m_p_samps q) (m_logUnNormWeights q) m = Inr (getExpectations t' ! k))
         \<and> (m_resampler t', m_p_innerMods t', m_p_samps t', m_logUnNormWeights t')
             = (if (m_now t + 1) mod m_rs t = 0
                then resampLogWts K (m_resampler t) (m_p_innerMods q) (m_p_samps q)
                       (m_logUnNormWeights q)
                else (m_resampler t, m_p_innerMods q, m_p_samps q, m_logUnNormWeights q))
         \<and> m_now t' = m_now t + 1))
    \<and> (rbpf_hmm_filter nparts M data fs s = Inr s' \<longrightarrow> unat (m_now s) + 1 < 2 ^ 32 \<longrightarrow>
          unat (m_now s') = unat (m_now s) + 1
          \<and> m_resampler s' = (if unat (m_rs s) dvd unat (m_now s) + 1
                               then Suc (m_resampler s) else m_resampler s))
    \<and> (rbpf_kalman_filter nparts K data fs t = Inr t' \<longrightarrow> unat (m_now t) + 1 < 2 ^ 32 \<longrightarrow>
          unat (m_now t') = unat (m_now t) + 1
          \<and> m_resampler t' = (if unat (m_rs t) dvd unat (m_now t) + 1
                               then Suc (m_resampler t) else m_resampler t))
    \<and> (rbpf_hmm_filter nparts M data fs s = Inr s' \<longrightarrow> m_rs s = 1 \<longrightarrow>
          m_resampler s' = Suc (m_resampler s))
    \<and> (rbpf_kalman_filter nparts K data fs t = Inr t' \<longrightarrow> m_rs t = 1 \<longrightarrow>
          m_resampler t' = Suc (m_resampler t))
    \<and> (hmm_run nparts M calls (rbpf_hmm_ctor nparts i0 x0 w0 0 u0 R) = Inr s'' \<longrightarrow>
           m_resampler s'' = length calls div unat R \<and> unat (m_now s'') = length calls)
    \<and> (kalman_run nparts K calls (rbpf_kalman_ctor nparts i0 x0 w0 0 u0 R) = Inr t'' \<longrightarrow>
           m_resampler t'' = length calls div unat R \<and> unat (m_now t'') = length calls)"
proof (intro conjI impI)
  assume ret: "rbpf_hmm_filter nparts M data fs s = Inr s'"
  from hmm_call_order[OF ret sized(1)]
  show "\<exists>q m m2. hmm_weights_phase nparts M data fs s = Inr q
         \<and> (\<forall>i<nparts. if m_now s = 0 then hmm_first_particle M data (particle q i)
                         else hmm_later_particle M data (particle s i) (particle q i))
         \<and> (m_now s \<noteq> 0 \<longrightarrow> is_maximum_of m2 (m_logUnNormWeights s))
         \<and> getLogCondLike s' =
             (if m_now s = 0
              then dsub (logsumexp (m_logUnNormWeights q)) (dlog (Finite (real nparts)))
              else dsub (dsub (logsumexp (m_logUnNormWeights q)) m2)
                        (dlog (dsum nparts (\<lambda>i. dexp (dsub (m_logUnNormWeights s ! i) m2)))))
         \<and> is_maximum_of m (m_logUnNormWeights q)
         \<and> (\<forall>k<length fs. expectation nparts (getFilterVec M) (fs ! k) (m_p_innerMods q)
                (m_p_samps q) (m_logUnNormWeights q) m = Inr (getExpectations s' ! k))
         \<and> (m_resampler s', m_p_innerMods s', m_p_samps s', m_logUnNormWeights s')
             = (if (m_now s + 1) mod m_rs s = 0
                then resampLogWts M (m_resampler s) (m_p_innerMods q) (m_p_samps q)
                       (m_logUnNormWeights q)
                else (m_resampler s, m_p_innerMods q, m_p_samps q, m_logUnNormWeights q))
         \<and> m_now s' = m_now s + 1" .
next
  assume ret: "rbpf_kalman_filter nparts K data fs t = Inr t'"
  from kalman_call_order[OF ret sized(2)]
  show "\<exists>q m m2. kalman_weights_phase nparts K data fs t = Inr q
         \<and> (\<forall>i<nparts. if m_now t = 0 then kalman_first_particle K data (particle q i)
                         else kalman_later_particle K data (particle t i) (particle q i))
         \<and> (m_now t \<noteq> 0 \<longrightarrow> is_maximum_of m2 (m_logUnNormWeights t))
         \<and> kalman_increment nparts K data t = Inr
             (if m_now t = 0
              then dsub (logsumexp (m_logUnNormWeights q)) (dlog (Finite (real nparts)))
              else dsub (dsub (logsumexp (m_logUnNormWeights q)) m2)
                        (dlog (dsum nparts (\<lambda>i. dexp (dsub (m_logUnNormWeights t ! i) m2)))))
         \<and> is_maximum_of m (m_logUnNormWeights q)
         \<and> (\<forall>k<length fs. expectation nparts (getFilterVec K) (fs ! k) (m_p_innerMods q)
                (m_p_samps q) (m_logUnNormWeights q) m = Inr (getExpectations t' ! k))
         \<and> (m_resampler t', m_p_innerMods t', m_p_samps t', m_logUnNormWeights t')
             = (if (m_now t + 1) mod m_rs t = 0
                then resampLogWts K (m_resampler t) (m_p_innerMods q) (m_p_samps q)
                       (m_logUnNormWeights q)
                else (m_resampler t, m_p_innerMods q, m_p_samps q, m_logUnNormWeights q))
         \<and> m_now t' = m_now t + 1" .
next
  assume ret: "rbpf_hmm_filter nparts M data fs s = Inr s'"
    and small: "unat (m_now s) + 1 < 2 ^ 32"
  from hmm_call_order[OF ret sized(1)] have now: "m_now s' = m_now s + 1" by blast
  have r: "m_resampler s' =
             (if (m_now s + 1) mod m_rs s = 0 then Suc (m_resampler s) else m_resampler s)"
    by (rule resampling_schedule_parts(3) [OF cM cK len, THEN mp, OF ret])
  show "unat (m_now s') = unat (m_now s) + 1"
    unfolding now by (rule gate_in_steps(2)[OF small])
  show "m_resampler s' = (if unat (m_rs s) dvd unat (m_now s) + 1
                               then Suc (m_resampler s) else m_resampler s)"
    using r unfolding gate_in_steps(1)[OF small] .
next
  assume ret: "rbpf_kalman_filter nparts K data fs t = Inr t'"
    and small: "unat (m_now t) + 1 < 2 ^ 32"
  from kalman_call_order[OF ret sized(2)] have now: "m_now t' = m_now t + 1" by blast
  have r: "m_resampler t' =
             (if (m_now t + 1) mod m_rs t = 0 then Suc (m_resampler t) else m_resampler t)"
    by (rule resampling_schedule_parts(4) [OF cM cK len, THEN mp, OF ret])
  show "unat (m_now t') = unat (m_now t) + 1"
    unfolding now by (rule gate_in_steps(2)[OF small])
  show "m_resampler t' = (if unat (m_rs t) dvd unat (m_now t) + 1
                               then Suc (m_resampler t) else m_resampler t)"
    using r unfolding gate_in_steps(1)[OF small] .
next
  assume ret: "rbpf_hmm_filter nparts M data fs s = Inr s'" and one: "m_rs s = 1"
  from resampling_schedule_parts(3) [OF cM cK len, THEN mp, OF ret] one
  show "m_resampler s' = Suc (m_resampler s)" by simp
next
  assume ret: "rbpf_kalman_filter nparts K data fs t = Inr t'" and one: "m_rs t = 1"
  from resampling_schedule_parts(4) [OF cM cK len, THEN mp, OF ret] one
  show "m_resampler t' = Suc (m_resampler t)" by simp
next
  assume run: "hmm_run nparts M calls (rbpf_hmm_ctor nparts i0 x0 w0 0 u0 R) = Inr s''"
  from resampling_schedule_parts(5) [OF cM cK len, THEN mp, OF run]
  show "m_resampler s'' = length calls div unat R" and "unat (m_now s'') = length calls"
    by simp_all
next
  assume run: "kalman_run nparts K calls (rbpf_kalman_ctor nparts i0 x0 w0 0 u0 R) = Inr t''"
  from resampling_schedule_parts(6) [OF cM cK len, THEN mp, OF run]
  show "m_resampler t'' = length calls div unat R" and "unat (m_now t'') = length calls"
    by simp_all
qed

theorem call_order_and_resampling_schedule_witness:
  "(\<forall>r a b c. fst (resampLogWts uneven_hmm r a b c) = Suc r)
   \<and> (\<forall>r a b c. fst (resampLogWts uneven_kalman r a b c) = Suc r)
   \<and> length uneven_two_calls < (2::nat) ^ 32
   \<and> arrays_sized 2 (demo_hmm_fresh 1) \<and> arrays_sized 2 (demo_kalman_fresh 1)
   \<and> rbpf_hmm_filter 2 uneven_hmm demo_y [the_sample] (demo_hmm_fresh 1)
       = Inr (uneven_state 1 1 (Finite (2 + ln (3 / 2))) [Finite (- ln 2), Finite (- ln 2)] 1
                [[[Finite 3]]] 2)
   \<and> expectation 2 (getFilterVec uneven_hmm) ([the_sample] ! 0)
         [(Finite 2, [Finite 1]), (Finite 2, [Finite 1])] [[Finite 1], [Finite 4]]
         [Finite 2, Finite (2 + ln 2)] (Finite (2 + ln 2))
       = Inr [[Finite 3]]
   \<and> (Suc 0, [(Finite 2, [Finite 1]), (Finite 2, [Finite 1])], [[Finite 1], [Finite 4]],
        [Finite (- ln 2), Finite (- ln 2)])
       = resampLogWts uneven_hmm 0 [(Finite 2, [Finite 1]), (Finite 2, [Finite 1])]
           [[Finite 1], [Finite 4]] [Finite 2, Finite (2 + ln 2)]
   \<and> hmm_run 2 uneven_hmm uneven_two_calls
         (rbpf_hmm_ctor 2 (Finite 0, []) [] (Finite 0) 0 0 1)
       = Inr (uneven_state 2 1 (Finite 0) [Finite (- ln 2), Finite (- ln 2)] 2
                [[[Finite (5 / 2)]]] 4)
   \<and> m_resampler (uneven_state 2 1 (Finite 0) [Finite (- ln 2), Finite (- ln 2)] 2
                [[[Finite (5 / 2)]]] 4)
       = length uneven_two_calls div unat (1 :: 32 word)
   \<and> kalman_run 2 uneven_kalman uneven_two_calls
         (rbpf_kalman_ctor 2 (Finite 0, []) [] (Finite 0) 0 0 1)
       = Inr (uneven_state 2 1 (Finite 0) [Finite (- ln 2), Finite (- ln 2)] 2
                [[[Finite (5 / 2)]]] 4)"
proof -
  let ?S1 = "uneven_state 1 1 (Finite (2 + ln (3 / 2))) [Finite (- ln 2), Finite (- ln 2)] 1
                [[[Finite 3]]] 2"
  let ?T1 = "uneven_state 1 1 (Finite 0) [Finite (- ln 2), Finite (- ln 2)] 1 [[[Finite 3]]] 2"
  let ?S2 = "uneven_state 2 1 (Finite 0) [Finite (- ln 2), Finite (- ln 2)] 2
                [[[Finite (5 / 2)]]] 4"
  let ?Q = "uneven_state 0 1 (Finite (2 + ln (3 / 2))) [Finite 2, Finite (2 + ln 2)] 0 [[]] 2"
  have cM: "\<forall>r a b c. fst (resampLogWts uneven_hmm r a b c) = Suc r"
    and cK: "\<forall>r a b c. fst (resampLogWts uneven_kalman r a b c) = Suc r"
    by (simp_all add: uneven_resampler_counts)
  have len: "length uneven_two_calls < (2::nat) ^ 32" by (simp add: uneven_two_calls_def)
  have sh: "arrays_sized 2 (demo_hmm_fresh 1)" and sk: "arrays_sized 2 (demo_kalman_fresh 1)"
    unfolding demo_hmm_fresh_def demo_kalman_fresh_def by (rule fresh_sized)+
  have h: "hmm_run 2 uneven_hmm uneven_two_calls
         (rbpf_hmm_ctor 2 (Finite 0, []) [] (Finite 0) 0 0 1) = Inr ?S2"
    using uneven_hmm_first_R1 uneven_hmm_second_R1
    by (simp add: hmm_run_def demo_hmm_fresh_def uneven_two_calls_def)
  have k: "kalman_run 2 uneven_kalman uneven_two_calls
         (rbpf_kalman_ctor 2 (Finite 0, []) [] (Finite 0) 0 0 1) = Inr ?S2"
    using uneven_kalman_first_R1 uneven_kalman_second_R1
    by (simp add: kalman_run_def demo_kalman_fresh_def uneven_two_calls_def)
  note all = call_order_and_resampling_schedule [OF cM cK len sh sk, where data=demo_y
      and fs="[the_sample]" and s'="?S1" and t'="?T1" and ?i0.0="(Finite 0, [])"
      and ?x0.0="[]" and ?w0.0="Finite 0" and ?u0.0=0 and R=1 and s''="?S2" and t''="?S2"]
  from all [THEN conjunct1, THEN mp, OF uneven_hmm_first_R1]
  obtain q m m2 where
    ph: "hmm_weights_phase 2 uneven_hmm demo_y [the_sample] (demo_hmm_fresh 1) = Inr q"
    and m: "is_maximum_of m (m_logUnNormWeights q)"
    and ex: "\<forall>k<length [the_sample]. expectation 2 (getFilterVec uneven_hmm) ([the_sample] ! k)
                (m_p_innerMods q) (m_p_samps q) (m_logUnNormWeights q) m
              = Inr (getExpectations ?S1 ! k)"
    and rs: "(m_resampler ?S1, m_p_innerMods ?S1, m_p_samps ?S1, m_logUnNormWeights ?S1)
             = (if (m_now (demo_hmm_fresh 1) + 1) mod m_rs (demo_hmm_fresh 1) = 0
                then resampLogWts uneven_hmm (m_resampler (demo_hmm_fresh 1)) (m_p_innerMods q)
                       (m_p_samps q) (m_logUnNormWeights q)
                else (m_resampler (demo_hmm_fresh 1), m_p_innerMods q, m_p_samps q,
                      m_logUnNormWeights q))"
    by (elim exE conjE) (rule that)
  from ph have q: "q = ?Q" by (simp add: uneven_hmm_first_R1_phase)
  from m have m': "m = Finite (2 + ln 2)"
    unfolding q uneven_state_sel by (rule uneven_maximum)
  have e: "expectation 2 (getFilterVec uneven_hmm) ([the_sample] ! 0)
         [(Finite 2, [Finite 1]), (Finite 2, [Finite 1])] [[Finite 1], [Finite 4]]
         [Finite 2, Finite (2 + ln 2)] (Finite (2 + ln 2))
       = Inr [[Finite 3]]"
    using ex [rule_format, of 0] unfolding q m' uneven_state_sel by simp
  have r: "(Suc 0, [(Finite 2, [Finite 1]), (Finite 2, [Finite 1])], [[Finite 1], [Finite 4]],
        [Finite (- ln 2), Finite (- ln 2)])
       = resampLogWts uneven_hmm 0 [(Finite 2, [Finite 1]), (Finite 2, [Finite 1])]
           [[Finite 1], [Finite 4]] [Finite 2, Finite (2 + ln 2)]"
    using rs unfolding q uneven_state_sel demo_fresh_sel by simp
  from all [THEN conjunct2, THEN conjunct2, THEN conjunct2, THEN conjunct2, THEN conjunct2,
      THEN conjunct2, THEN conjunct1, THEN mp, OF h]
  have c: "m_resampler ?S2 = length uneven_two_calls div unat (1 :: 32 word)"
    by (rule conjunct1)
  from cM cK len sh sk uneven_hmm_first_R1 e r h c k
  show ?thesis by (intro conjI)
qed


section \<open>The configuration is not checked\<close>

lemma calc_expectations_faults:
  "calc_expectations n gfv mods samps ws m fs fId exps = Inl e \<Longrightarrow>
   e = ShapeMismatch \<or> e = VectorIndexOutOfRange"
  by (induction fs arbitrary: fId exps)
    (auto split: sum.splits if_splits dest: expectation_fault)

lemma expectations_block_faults:
  "expectations_block n M fs q = Inl e \<Longrightarrow> e \<noteq> ModuloByZero"
  by (auto simp: expectations_block_def split: sum.splits
      dest: max_element_fault calc_expectations_faults)

lemma after_weights_modulo:
  assumes ok: "phase_ok fs s r" and "after_weights nparts M fs r = Inl ModuloByZero"
  shows "m_rs s = 0"
  using after_weights_Inl[OF assms(2)]
proof (elim disjE exE conjE)
  assume "r = Inl ModuloByZero"
  with ok show ?thesis by (simp add: phase_ok_def)
next
  fix q assume "expectations_block nparts M fs q = Inl ModuloByZero"
  then show ?thesis by (auto dest: expectations_block_faults)
next
  fix q p assume "r = Inr q" "m_rs q = 0"
  with ok show ?thesis by (simp add: phase_ok_def)
qed

lemma run_calls_keeps_period:
  assumes step: "\<And>data fs s s'. f data fs s = Inr s' \<Longrightarrow> m_rs s' = m_rs s"
    and "run_calls f calls s = Inr s'"
  shows "m_rs s' = m_rs s"
  using assms(2)
proof (induction calls arbitrary: s)
  case Nil
  then show ?case by simp
next
  case (Cons call calls)
  obtain data fs where call: "call = (data, fs)" by (cases call)
  from Cons.prems call obtain s1 where f: "f data fs s = Inr s1"
    and run: "run_calls f calls s1 = Inr s'"
    by (auto split: sum.splits)
  from Cons.IH[OF run] step[OF f] show ?case by simp
qed

text \<open>
  C7, as the specification has it, does not hold.  An engine with period 0 is constructed
  like any other, so \<open>R \<ge> 1\<close> fails for an engine that exists; so is an engine with no
  particles.  Nor does the first call find a configuration error: with a functional whose
  output is 1 by 2 it stops at the shape of the temporaries of the expectation loop, before
  it gets to the period.
\<close>

theorem zero_period_engine_is_constructed:
  "m_rs (demo_hmm_fresh 0) = 0 \<and> \<not> 1 \<le> unat (m_rs (demo_hmm_fresh 0))
   \<and> m_rs (demo_kalman_fresh 0) = 0 \<and> \<not> 1 \<le> unat (m_rs (demo_kalman_fresh 0))
   \<and> m_now (demo_hmm_fresh 0) = 0 \<and> getLogCondLike (demo_hmm_fresh 0) = Finite 0
   \<and> m_logUnNormWeights (rbpf_hmm_ctor 0 (Finite 0, []) [] (Finite 0) (0::nat) (0::nat) 5
          :: (demo_inner, nat, nat) rbpf) = []
   \<and> rbpf_hmm_filter 2 demo_hmm demo_y [wide] (demo_hmm_fresh 0) = Inl ShapeMismatch
   \<and> rbpf_kalman_filter 2 demo_kalman demo_y [wide] (demo_kalman_fresh 0) = Inl ShapeMismatch"
  by (simp add: demo_hmm_zero_period_wide demo_kalman_zero_period_wide)
    (simp add: demo_hmm_fresh_def demo_kalman_fresh_def rbpf_hmm_ctor_def rbpf_kalman_ctor_def
      getLogCondLike_def)

text \<open>
  C7, as the code has it.  Nothing checks the configuration.  The constructors store every period and
  make arrays of every size, and \<^verbatim>\<open>filter\<close> never changes the period: after any run the
  period is the one the engine was constructed with, so it is at least 1 exactly when it
  was constructed so.  The period is used in one place, the remainder
  \<^verbatim>\<open>(m_now+1) % m_rs\<close> at the end of a call.  A call that returns was made with a period
  of at least 1; a call that gets to the remainder with period 0 divides by zero, which is
  undefined behaviour and not an error the code detects.
\<close>

theorem period_is_stored_unchecked:
  "m_rs (rbpf_hmm_ctor nparts i0 x0 w0 r0 u0 R) = R
   \<and> m_rs (rbpf_kalman_ctor nparts i0 x0 w0 r0 u0 R) = R
   \<and> arrays_sized nparts (rbpf_hmm_ctor nparts i0 x0 w0 r0 u0 R)
   \<and> arrays_sized nparts (rbpf_kalman_ctor nparts i0 x0 w0 r0 u0 R)
   \<and> (rbpf_hmm_filter nparts M data fs s = Inr s' \<longrightarrow> m_rs s' = m_rs s \<and> 1 \<le> unat (m_rs s))
   \<and> (rbpf_kalman_filter nparts K data fs t = Inr t' \<longrightarrow> m_rs t' = m_rs t \<and> 1 \<le> unat (m_rs t))
   \<and> (rbpf_hmm_filter nparts M data fs s = Inl ModuloByZero \<longrightarrow> m_rs s = 0)
   \<and> (rbpf_kalman_filter nparts K data fs t = Inl ModuloByZero \<longrightarrow> m_rs t = 0)
   \<and> (hmm_run nparts M calls (rbpf_hmm_ctor nparts i0 x0 w0 r0 u0 R) = Inr s'' \<longrightarrow> m_rs s'' = R)
   \<and> (kalman_run nparts K calls (rbpf_kalman_ctor nparts i0 x0 w0 r0 u0 R) = Inr t''
        \<longrightarrow> m_rs t'' = R)"
proof -
  have h: "m_rs b = m_rs a \<and> 1 \<le> unat (m_rs a)"
    if "rbpf_hmm_filter nparts M d g a = Inr b" for d g a b
  proof -
    from that have r: "after_weights nparts M g (hmm_weights_phase nparts M d g a) = Inr b"
      by (simp add: hmm_filter_phases)
    from after_weights_step(1,3)[OF hmm_weights_phase_ok r]
    show ?thesis by (simp add: unat_gt_0 Suc_leI)
  qed
  have k: "m_rs b = m_rs a \<and> 1 \<le> unat (m_rs a)"
    if "rbpf_kalman_filter nparts K d g a = Inr b" for d g a b
  proof -
    from that have r: "after_weights nparts K g (kalman_weights_phase nparts K d g a) = Inr b"
      by (simp add: kalman_filter_phases)
    from after_weights_step(1,3)[OF kalman_weights_phase_ok r]
    show ?thesis by (simp add: unat_gt_0 Suc_leI)
  qed
  have hz: "m_rs s = 0" if "rbpf_hmm_filter nparts M data fs s = Inl ModuloByZero"
    using that unfolding hmm_filter_phases
    by (rule after_weights_modulo[OF hmm_weights_phase_ok])
  have kz: "m_rs t = 0" if "rbpf_kalman_filter nparts K data fs t = Inl ModuloByZero"
    using that unfolding kalman_filter_phases
    by (rule after_weights_modulo[OF kalman_weights_phase_ok])
  have hr: "m_rs s'' = R"
    if "hmm_run nparts M calls (rbpf_hmm_ctor nparts i0 x0 w0 r0 u0 R) = Inr s''"
  proof -
    have "m_rs s'' = m_rs (rbpf_hmm_ctor nparts i0 x0 w0 r0 u0 R)"
      by (rule run_calls_keeps_period[where f="rbpf_hmm_filter nparts M" and calls=calls])
        (use h that in \<open>simp_all add: hmm_run_def\<close>)
    then show ?thesis by (simp add: rbpf_hmm_ctor_def)
  qed
  have kr: "m_rs t'' = R"
    if "kalman_run nparts K calls (rbpf_kalman_ctor nparts i0 x0 w0 r0 u0 R) = Inr t''"
  proof -
    have "m_rs t'' = m_rs (rbpf_kalman_ctor nparts i0 x0 w0 r0 u0 R)"
      by (rule run_calls_keeps_period[where f="rbpf_kalman_filter nparts K" and calls=calls])
        (use k that in \<open>simp_all add: kalman_run_def\<close>)
    then show ?thesis by (simp add: rbpf_kalman_ctor_def)
  qed
  have c: "m_rs (rbpf_hmm_ctor nparts i0 x0 w0 r0 u0 R) = R"
    "m_rs (rbpf_kalman_ctor nparts i0 x0 w0 r0 u0 R) = R"
    by (simp_all add: rbpf_hmm_ctor_def rbpf_kalman_ctor_def)
  note z = fresh_sized [of nparts i0 x0 w0 r0 u0 R]
  from c z h k hz kz hr kr show ?thesis by blast
qed

theorem period_is_stored_unchecked_witness:
  "m_rs (rbpf_hmm_ctor 2 (Finite 0, []) [] (Finite 0) (0::nat) (0::nat) 0
          :: (demo_inner, nat, nat) rbpf) = 0
   \<and> rbpf_hmm_filter 2 demo_hmm demo_y [] (demo_hmm_fresh 0) = Inl ModuloByZero
   \<and> m_rs (demo_hmm_fresh 0) = 0
   \<and> rbpf_kalman_filter 2 demo_kalman demo_y [] (demo_kalman_fresh 0) = Inl ModuloByZero
   \<and> m_rs (demo_kalman_fresh 0) = 0
   \<and> rbpf_hmm_filter 2 demo_hmm demo_y [] (demo_hmm_fresh 5)
       = Inr (demo_state 1 5 (Finite 2) [Finite 2, Finite 2] 0 [] 2)
   \<and> m_rs (demo_state 1 5 (Finite 2) [Finite 2, Finite 2] 0 [] 2) = m_rs (demo_hmm_fresh 5)
   \<and> 1 \<le> unat (m_rs (demo_hmm_fresh 5))
   \<and> rbpf_kalman_filter 2 demo_kalman demo_y [] (demo_kalman_fresh 5)
       = Inr (demo_state 1 5 (Finite 0) [Finite 2, Finite 2] 0 [] 2)
   \<and> 1 \<le> unat (m_rs (demo_kalman_fresh 5))"
proof -
  note z = period_is_stored_unchecked [where nparts=2 and M=demo_hmm and K=demo_kalman
      and data=demo_y and fs="[]" and s="demo_hmm_fresh 0" and t="demo_kalman_fresh 0"
      and ?i0.0="(Finite 0, [])" and ?x0.0="[]" and ?w0.0="Finite 0" and ?r0.0="0::nat"
      and ?u0.0="0::nat" and R=0]
  note f = period_is_stored_unchecked [where nparts=2 and M=demo_hmm and K=demo_kalman
      and data=demo_y and fs="[]" and s="demo_hmm_fresh 5" and t="demo_kalman_fresh 5"
      and s'="demo_state 1 5 (Finite 2) [Finite 2, Finite 2] 0 [] 2"
      and t'="demo_state 1 5 (Finite 0) [Finite 2, Finite 2] 0 [] 2"]
  have c: "m_rs (rbpf_hmm_ctor 2 (Finite 0, []) [] (Finite 0) (0::nat) (0::nat) 0
          :: (demo_inner, nat, nat) rbpf) = 0"
    by (rule z [THEN conjunct1])
  have hz: "m_rs (demo_hmm_fresh 0) = 0"
    by (rule z [THEN conjunct2, THEN conjunct2, THEN conjunct2, THEN conjunct2, THEN conjunct2,
          THEN conjunct2, THEN conjunct1, THEN mp, OF demo_hmm_zero_period])
  have kz: "m_rs (demo_kalman_fresh 0) = 0"
    by (rule z [THEN conjunct2, THEN conjunct2, THEN conjunct2, THEN conjunct2, THEN conjunct2,
          THEN conjunct2, THEN conjunct2, THEN conjunct1, THEN mp, OF demo_kalman_zero_period])
  have h5: "m_rs (demo_state 1 5 (Finite 2) [Finite 2, Finite 2] 0 [] 2) = m_rs (demo_hmm_fresh 5)
      \<and> 1 \<le> unat (m_rs (demo_hmm_fresh 5))"
    by (rule f [THEN conjunct2, THEN conjunct2, THEN conjunct2, THEN conjunct2, THEN conjunct1,
          THEN mp, OF demo_hmm_first])
  have k5: "m_rs (demo_state 1 5 (Finite 0) [Finite 2, Finite 2] 0 [] 2)
        = m_rs (demo_kalman_fresh 5)
      \<and> 1 \<le> unat (m_rs (demo_kalman_fresh 5))"
    by (rule f [THEN conjunct2, THEN conjunct2, THEN conjunct2, THEN conjunct2, THEN conjunct2,
          THEN conjunct1, THEN mp, OF demo_kalman_first])
  from c hz kz h5 k5 demo_hmm_zero_period demo_kalman_zero_period demo_hmm_first
    demo_kalman_first
  show ?thesis by (intro conjI) (elim conjE, assumption)+
qed


section \<open>The logarithm in the expectation loop\<close>









section \<open>The scale of the log-weights\<close>





section \<open>A fresh engine\<close>

text \<open>
  C10.  Before the first call of \<^verbatim>\<open>filter\<close> the step counter is 0,
  \<^verbatim>\<open>getLogCondLike\<close> returns exactly 0.0 and \<^verbatim>\<open>getExpectations\<close> returns an empty
  vector, in the HMM and in the Kalman engine.
\<close>

theorem fresh_engine_getters:
  "m_now (rbpf_hmm_ctor nparts i0 x0 w0 r0 u0 R) = 0
   \<and> getLogCondLike (rbpf_hmm_ctor nparts i0 x0 w0 r0 u0 R) = Finite 0
   \<and> getExpectations (rbpf_hmm_ctor nparts i0 x0 w0 r0 u0 R) = []
   \<and> m_now (rbpf_kalman_ctor nparts i0 x0 w0 r0 u0 R) = 0
   \<and> getLogCondLike (rbpf_kalman_ctor nparts i0 x0 w0 r0 u0 R) = Finite 0
   \<and> getExpectations (rbpf_kalman_ctor nparts i0 x0 w0 r0 u0 R) = []"
  by (simp add: rbpf_hmm_ctor_def rbpf_kalman_ctor_def getLogCondLike_def getExpectations_def)

end
